theory Spec2Isabelle
  imports Complex_Main
begin

section \<open>JavaScript values, errors and the host\<close>

text \<open>
  The pre-executor is TypeScript that runs on a browser or on Node.js. Values are
  untyped at run time, so the model has one type of values. A number is a double:
  not-a-number, an infinity (\<open>True\<close> for the negative one) or a finite rational.
  A regular expression object is kept as its pattern and its flags, an object as
  the list of its own properties, a built-in function by its name;
  \<open>VObjectPrototype\<close> is the object \<open>Object.prototype\<close>.
\<close>

datatype jsnum = NaN | Infinity bool | Finite rat

datatype jsval =
    VUndefined
  | VNull
  | VBool bool
  | VNum jsnum
  | VStr string
  | VRegExp string string
  | VArr "jsval list"
  | VObj "(string \<times> jsval) list"
  | VFun string
  | VObjectPrototype

text \<open>
  What a \<open>throw\<close> carries: \<open>new Error(message)\<close>, or one of the errors the
  built-ins raise.
\<close>

datatype error =
    Error string
  | TypeError
  | SyntaxError
  | URIError

text \<open>
  Everything the code reads from its environment: the \<open>has\<close> flags of dojo/has, the
  process and the page, and the built-ins and helper modules whose code is not part
  of these sources (\<open>decodeURIComponent\<close>, \<open>JSON.parse\<close>, the value of a numeric
  literal, the \<open>RegExp\<close> compiler, \<open>path.isAbsolute\<close>, \<open>util.normalizePath\<close>,
  \<open>require.toUrl\<close>, the names of the properties of \<open>Array.prototype\<close>, whether
  \<open>0b\<close> and \<open>0o\<close> literals are numbers, as they are from ECMAScript 2015 on). A
  built-in that can throw returns \<open>None\<close> when it does; \<open>host_number_value\<close>
  returns \<open>None\<close> for a literal whose value is infinite.
\<close>

record host =
  host_browser :: bool
  host_node :: bool
  argv :: "string list"
  cwd :: string
  path_sep :: string
  path_isAbsolute :: "(string \<Rightarrow> bool) option"
  location_search :: string
  location_pathname :: string
  decodeURIComponent :: "string \<Rightarrow> string option"
  JSON_parse :: "string \<Rightarrow> jsval option"
  host_number_value :: "string \<Rightarrow> rat option"
  binary_octal_literals :: bool
  array_prototype_keys :: "string list"
  host_ToString :: "jsval \<Rightarrow> string"
  RegExp_compiles :: "string \<Rightarrow> string \<Rightarrow> bool"
  RegExp_from_RegExp :: bool
  RegExp_test :: "string \<Rightarrow> string \<Rightarrow> string \<Rightarrow> bool"
  normalizePath :: "string \<Rightarrow> string"
  toUrl :: "string \<Rightarrow> string"

definition isArray :: "jsval \<Rightarrow> bool" where
  "isArray v = (case v of VArr xs \<Rightarrow> True | _ \<Rightarrow> False)"

text \<open>\<open>value == null\<close>: true of \<open>null\<close> and of \<open>undefined\<close> only.\<close>

definition is_nullish :: "jsval \<Rightarrow> bool" where
  "is_nullish v = (case v of VUndefined \<Rightarrow> True | VNull \<Rightarrow> True | _ \<Rightarrow> False)"

section \<open>Regular expressions of the source\<close>

text \<open>
  The patterns the code matches against paths are written as terms and matched by
  derivatives. A character class is a predicate on characters.
\<close>

datatype rx =
    Zero
  | One
  | Cls "char \<Rightarrow> bool"
  | Seq rx rx
  | Alt rx rx
  | Star rx

fun nullable :: "rx \<Rightarrow> bool" where
  "nullable Zero = False"
| "nullable One = True"
| "nullable (Cls P) = False"
| "nullable (Seq r s) = (nullable r \<and> nullable s)"
| "nullable (Alt r s) = (nullable r \<or> nullable s)"
| "nullable (Star r) = True"

fun deriv :: "char \<Rightarrow> rx \<Rightarrow> rx" where
  "deriv c Zero = Zero"
| "deriv c One = Zero"
| "deriv c (Cls P) = (if P c then One else Zero)"
| "deriv c (Seq r s) =
     (if nullable r then Alt (Seq (deriv c r) s) (deriv c s) else Seq (deriv c r) s)"
| "deriv c (Alt r s) = Alt (deriv c r) (deriv c s)"
| "deriv c (Star r) = Seq (deriv c r) (Star r)"

fun rx_match :: "rx \<Rightarrow> string \<Rightarrow> bool" where
  "rx_match r [] = nullable r"
| "rx_match r (c # cs) = rx_match (deriv c r) cs"

definition rx_char :: "char \<Rightarrow> rx" where
  "rx_char c = Cls (\<lambda>x. x = c)"

definition rx_plus :: "rx \<Rightarrow> rx" where
  "rx_plus r = Seq r (Star r)"

definition rx_opt :: "rx \<Rightarrow> rx" where
  "rx_opt r = Alt r One"

fun rx_string :: "string \<Rightarrow> rx" where
  "rx_string [] = One"
| "rx_string (c # cs) = Seq (rx_char c) (rx_string cs)"

text \<open>\<open>/^r/.test(s)\<close>: some prefix of \<open>s\<close> matches \<open>r\<close>.\<close>

definition rx_test_prefix :: "rx \<Rightarrow> string \<Rightarrow> bool" where
  "rx_test_prefix r s = rx_match (Seq r (Star (Cls (\<lambda>x. True)))) s"

text \<open>
  \<open>s.replace(/r$/, repl)\<close>, without the global flag: the leftmost position from which
  the rest of \<open>s\<close> matches \<open>r\<close> is where the replacement starts; with no such position
  \<open>s\<close> is returned as it is.
\<close>

fun replace_suffix :: "rx \<Rightarrow> string \<Rightarrow> string \<Rightarrow> string" where
  "replace_suffix r repl [] = (if nullable r then repl else [])"
| "replace_suffix r repl (c # cs) =
     (if rx_match r (c # cs) then repl else c # replace_suffix r repl cs)"

definition rx_slash :: rx where
  "rx_slash = rx_char CHR ''/''"

definition rx_not_slash :: rx where
  "rx_not_slash = Cls (\<lambda>x. x \<noteq> CHR ''/'')"

text \<open>\<open>\w\<close>: the letters, the digits and the underscore.\<close>

definition is_word_char :: "char \<Rightarrow> bool" where
  "is_word_char c =
     (c \<in> set ''abcdefghijklmnopqrstuvwxyzABCDEFGHIJKLMNOPQRSTUVWXYZ0123456789_'')"

definition rx_word :: rx where
  "rx_word = Cls is_word_char"

text \<open>\<open>/\/+[^\/]*/\<close>: one path segment with the slashes before it.\<close>

definition rx_segment :: rx where
  "rx_segment = Seq (rx_plus rx_slash) (Star rx_not_slash)"

text \<open>\<open>/(?:\/+[^\/]*){3}\/?$/\<close>, the end anchor left to \<open>replace_suffix\<close>.\<close>

definition rx_three_segments :: rx where
  "rx_three_segments = Seq rx_segment (Seq rx_segment (Seq rx_segment (rx_opt rx_slash)))"

text \<open>\<open>/^\w+:/\<close>\<close>

definition rx_scheme :: rx where
  "rx_scheme = Seq (rx_plus rx_word) (rx_char CHR '':'')"

text \<open>\<open>/^(?:\w+:|\/\/\w)/\<close>: a scheme, or two slashes and a word character.\<close>

definition rx_absolute_url :: rx where
  "rx_absolute_url = Alt rx_scheme (Seq rx_slash (Seq rx_slash rx_word))"

section \<open>Numbers and strings\<close>

definition is_digit :: "char \<Rightarrow> bool" where
  "is_digit c = (c \<in> set ''0123456789'')"

definition digit_value :: "char \<Rightarrow> nat" where
  "digit_value c = length (takeWhile (\<lambda>d. d \<noteq> c) ''0123456789'')"

definition decimal_value :: "string \<Rightarrow> nat" where
  "decimal_value s = foldl (\<lambda>n c. 10 * n + digit_value c) 0 s"

text \<open>
  The white space around a numeric string, among the characters up to 255: tab, line
  feed, vertical tab, form feed, carriage return, space and no-break space.
\<close>

definition is_space :: "char \<Rightarrow> bool" where
  "is_space c =
     (c \<in> set [CHR 0x09, CHR 0x0A, CHR 0x0B, CHR 0x0C, CHR 0x0D, CHR 0x20, CHR 0xA0])"

text \<open>
  The grammar of the strings that \<open>Number\<close> reads as a number (\<open>StringNumericLiteral\<close>
  of ECMAScript): optional white space around an optional literal, which is a signed
  decimal literal (\<open>Infinity\<close>, or digits with an optional fraction and exponent), or
  an unsigned hexadecimal literal, or, from ECMAScript 2015 on, a binary or octal one.
\<close>

definition rx_digits :: rx where
  "rx_digits = rx_plus (Cls is_digit)"

definition rx_sign :: rx where
  "rx_sign = Cls (\<lambda>c. c = CHR ''+'' \<or> c = CHR ''-'')"

definition rx_exponent :: rx where
  "rx_exponent = Seq (Cls (\<lambda>c. c = CHR ''e'' \<or> c = CHR ''E'')) (Seq (rx_opt rx_sign) rx_digits)"

definition rx_unsigned_decimal :: rx where
  "rx_unsigned_decimal =
     Alt (rx_string ''Infinity'')
       (Alt (Seq rx_digits
               (Seq (rx_opt (Seq (rx_char CHR ''.'') (Star (Cls is_digit)))) (rx_opt rx_exponent)))
            (Seq (rx_char CHR ''.'') (Seq rx_digits (rx_opt rx_exponent))))"

definition rx_radix_literal :: "string \<Rightarrow> string \<Rightarrow> rx" where
  "rx_radix_literal marks digits =
     Seq (rx_char CHR ''0'') (Seq (Cls (\<lambda>c. c \<in> set marks)) (rx_plus (Cls (\<lambda>c. c \<in> set digits))))"

definition rx_numeric_literal :: "bool \<Rightarrow> rx" where
  "rx_numeric_literal es2015 =
     Alt (Seq (rx_opt rx_sign) rx_unsigned_decimal)
       (Alt (rx_radix_literal ''xX'' ''0123456789abcdefABCDEF'')
          (if es2015
           then Alt (rx_radix_literal ''bB'' ''01'') (rx_radix_literal ''oO'' ''01234567'')
           else Zero))"

definition is_numeric_string :: "host \<Rightarrow> string \<Rightarrow> bool" where
  "is_numeric_string h s =
     rx_match (Seq (Star (Cls is_space))
                 (Seq (rx_opt (rx_numeric_literal (binary_octal_literals h))) (Star (Cls is_space))))
       s"

definition trim :: "string \<Rightarrow> string" where
  "trim s = rev (dropWhile is_space (rev (dropWhile is_space s)))"

text \<open>
  \<open>Number(s)\<close> on a string: \<open>NaN\<close> unless \<open>s\<close> is a numeric string; 0 when nothing
  but white space is there; the integer itself for one to fifteen decimal digits,
  which a double holds exactly; an infinity for the literal \<open>Infinity\<close>; for every
  other literal the value the host computes (rounded to a double, or infinite, with
  the sign of the literal).
\<close>

definition js_Number :: "host \<Rightarrow> string \<Rightarrow> jsnum" where
  "js_Number h s =
     (if \<not> is_numeric_string h s then NaN
      else if trim s = [] then Finite 0
      else if list_all is_digit (trim s) \<and> length (trim s) \<le> 15
      then Finite (of_nat (decimal_value (trim s)))
      else if trim s = ''Infinity'' \<or> trim s = ''+Infinity'' then Infinity False
      else if trim s = ''-Infinity'' then Infinity True
      else (case host_number_value h s of
              Some q \<Rightarrow> Finite q
            | None \<Rightarrow> Infinity (take 1 (trim s) = ''-'')))"

fun digits_of_nat :: "nat \<Rightarrow> string" where
  "digits_of_nat n =
     (if n < 10 then [''0123456789'' ! n]
      else digits_of_nat (n div 10) @ [''0123456789'' ! (n mod 10)])"

text \<open>
  The string a value becomes in a concatenation. Strings, booleans, \<open>null\<close>,
  \<open>undefined\<close>, \<open>NaN\<close>, the infinities and the integers up to \<open>2^53\<close>, which are
  printed digit by digit, have a fixed text; the host prints every other number and
  converts objects.
\<close>

definition js_ToString :: "host \<Rightarrow> jsval \<Rightarrow> string" where
  "js_ToString h v =
     (case v of
        VStr s \<Rightarrow> s
      | VUndefined \<Rightarrow> ''undefined''
      | VNull \<Rightarrow> ''null''
      | VBool b \<Rightarrow> (if b then ''true'' else ''false'')
      | VNum NaN \<Rightarrow> ''NaN''
      | VNum (Infinity neg) \<Rightarrow> (if neg then ''-Infinity'' else ''Infinity'')
      | VNum (Finite q) \<Rightarrow>
          (if q = of_int \<lfloor>q\<rfloor> \<and> \<bar>q\<bar> \<le> 2 ^ 53
           then (if q < 0 then ''-'' else []) @ digits_of_nat (nat \<bar>\<lfloor>q\<rfloor>\<bar>)
           else host_ToString h v)
      | _ \<Rightarrow> host_ToString h v)"

text \<open>What \<open>if (v)\<close> and \<open>||\<close> test.\<close>

definition truthy :: "jsval \<Rightarrow> bool" where
  "truthy v =
     (case v of
        VUndefined \<Rightarrow> False
      | VNull \<Rightarrow> False
      | VBool b \<Rightarrow> b
      | VNum NaN \<Rightarrow> False
      | VNum (Finite q) \<Rightarrow> q \<noteq> 0
      | VStr s \<Rightarrow> s \<noteq> []
      | _ \<Rightarrow> True)"

text \<open>\<open>s.charAt(s.length - 1) !== '/'\<close> then \<open>s += '/'\<close>.\<close>

definition ensure_trailing_slash :: "string \<Rightarrow> string" where
  "ensure_trailing_slash s = (if s \<noteq> [] \<and> last s = CHR ''/'' then s else s @ ''/'')"

section \<open>parseArgs: command-line and query-string arguments\<close>

text \<open>
  \<open>String.prototype.split\<close> with a separator of one character: the pieces between the
  separators, the empty string giving one empty piece.
\<close>

fun split_on :: "char \<Rightarrow> string \<Rightarrow> string list" where
  "split_on c [] = [[]]"
| "split_on c (x # xs) =
     (if x = c then [] # split_on c xs
      else (case split_on c xs of [] \<Rightarrow> [[x]] | p # ps \<Rightarrow> (x # p) # ps))"

text \<open>\<open>parts[0].replace(/^--?/, '')\<close>: one or two leading dashes are dropped.\<close>

definition strip_dashes :: "string \<Rightarrow> string" where
  "strip_dashes s =
     (if take 2 s = ''--'' then drop 2 s
      else if take 1 s = ''-'' then drop 1 s
      else s)"

text \<open>
  \<open>args\<close> starts as the object literal \<open>{}\<close>, whose prototype is
  \<open>Object.prototype\<close>. The model keeps the own properties as a map. The only way the
  code changes the prototype is the assignment of an array to the key \<open>__proto__\<close>:
  \<open>proto_array\<close> is \<open>None\<close> while the prototype is \<open>Object.prototype\<close>, and holds
  the elements of the array once the prototype is that array (whose own prototype is
  \<open>Array.prototype\<close>, and then \<open>Object.prototype\<close>).
\<close>

record args =
  own :: "string \<rightharpoonup> jsval"
  proto_array :: "jsval list option"

definition empty_args :: args where
  "empty_args = \<lparr>own = Map.empty, proto_array = None\<rparr>"

text \<open>The names of the properties of \<open>Object.prototype\<close>; \<open>__proto__\<close> is an accessor.\<close>

definition object_prototype_keys :: "string list" where
  "object_prototype_keys =
     [''constructor'', ''hasOwnProperty'', ''isPrototypeOf'', ''propertyIsEnumerable'',
      ''toLocaleString'', ''toString'', ''valueOf'', ''__proto__'',
      ''__defineGetter__'', ''__defineSetter__'', ''__lookupGetter__'', ''__lookupSetter__'']"

text \<open>An array index as a property name: the digits of a number, without leading zero.\<close>

definition array_index :: "string \<Rightarrow> nat option" where
  "array_index k =
     (if k \<noteq> [] \<and> list_all is_digit k \<and> (k = ''0'' \<or> take 1 k \<noteq> ''0'')
      then Some (decimal_value k)
      else None)"

text \<open>
  Where the lookup of a property name along the prototype chain ends: at an own
  property; at the accessor \<open>__proto__\<close> of \<open>Object.prototype\<close> (neither an
  array nor \<open>Array.prototype\<close> has a property of that name of its own); at an
  element of the array that is the prototype; at another inherited value (the \<open>length\<close>
  of that array, a function of \<open>Array.prototype\<close> or of \<open>Object.prototype\<close>); or
  nowhere.
\<close>

datatype place =
    OwnProperty jsval
  | ProtoElement nat jsval
  | ProtoAccessor
  | Inherited jsval
  | Absent

definition find_property :: "host \<Rightarrow> args \<Rightarrow> string \<Rightarrow> place" where
  "find_property h a k =
     (case own a k of
        Some v \<Rightarrow> OwnProperty v
      | None \<Rightarrow>
          if k = ''__proto__'' then ProtoAccessor
          else
          (case (case proto_array a of
                   None \<Rightarrow> Absent
                 | Some xs \<Rightarrow>
                     if k = ''length'' then Inherited (VNum (Finite (of_nat (length xs))))
                     else (case array_index k of
                             Some i \<Rightarrow>
                               if i < length xs then ProtoElement i (xs ! i)
                               else if k \<in> set (array_prototype_keys h)
                               then Inherited (VFun (''Array.prototype.'' @ k))
                               else Absent
                           | None \<Rightarrow>
                               if k \<in> set (array_prototype_keys h)
                               then Inherited (VFun (''Array.prototype.'' @ k))
                               else Absent)) of
             Absent \<Rightarrow>
               if k \<in> set object_prototype_keys then Inherited (VFun k)
               else Absent
           | found \<Rightarrow> found))"

text \<open>\<open>key in args\<close>\<close>

definition has_property :: "host \<Rightarrow> args \<Rightarrow> string \<Rightarrow> bool" where
  "has_property h a k = (case find_property h a k of Absent \<Rightarrow> False | _ \<Rightarrow> True)"

text \<open>\<open>args[key]\<close>; the accessor \<open>__proto__\<close> returns the prototype.\<close>

definition get_property :: "host \<Rightarrow> args \<Rightarrow> string \<Rightarrow> jsval" where
  "get_property h a k =
     (case find_property h a k of
        OwnProperty v \<Rightarrow> v
      | ProtoElement i v \<Rightarrow> v
      | ProtoAccessor \<Rightarrow> (case proto_array a of Some xs \<Rightarrow> VArr xs | None \<Rightarrow> VObjectPrototype)
      | Inherited v \<Rightarrow> v
      | Absent \<Rightarrow> VUndefined)"

text \<open>
  \<open>args[key] = [ args[key] ]\<close>: through the accessor \<open>__proto__\<close> the array becomes
  the prototype of \<open>args\<close>; under any other key it becomes an own property.
\<close>

definition wrap_property :: "host \<Rightarrow> args \<Rightarrow> string \<Rightarrow> args" where
  "wrap_property h a k =
     (case find_property h a k of
        ProtoAccessor \<Rightarrow> a\<lparr>proto_array := Some [get_property h a k]\<rparr>
      | _ \<Rightarrow> a\<lparr>own := (own a)(k \<mapsto> VArr [get_property h a k])\<rparr>)"

text \<open>
  \<open>args[key].push(value)\<close>: the array that is found under the key grows, where it
  is: among the own properties, in the prototype (an element of it, or through
  \<open>__proto__\<close> the prototype itself). What is no array has no \<open>push\<close>.
\<close>

definition push_property :: "host \<Rightarrow> args \<Rightarrow> string \<Rightarrow> jsval \<Rightarrow> error + args" where
  "push_property h a k v =
     (case find_property h a k of
        OwnProperty (VArr ys) \<Rightarrow> Inr (a\<lparr>own := (own a)(k \<mapsto> VArr (ys @ [v]))\<rparr>)
      | ProtoElement i (VArr ys) \<Rightarrow>
          Inr (a\<lparr>proto_array := map_option (\<lambda>xs. xs[i := VArr (ys @ [v])]) (proto_array a)\<rparr>)
      | ProtoAccessor \<Rightarrow>
          (case proto_array a of
             Some xs \<Rightarrow> Inr (a\<lparr>proto_array := Some (xs @ [v])\<rparr>)
           | None \<Rightarrow> Inl TypeError)
      | _ \<Rightarrow> Inl TypeError)"

text \<open>
  \<open>JSON.parse\<close> is called on a text whose first character is an opening brace: it
  returns an object or throws a \<open>SyntaxError\<close>.
\<close>

definition js_JSON_parse :: "host \<Rightarrow> string \<Rightarrow> error + jsval" where
  "js_JSON_parse h s =
     (case JSON_parse h s of
        Some (VObj kvs) \<Rightarrow> Inr (VObj kvs)
      | _ \<Rightarrow> Inl SyntaxError)"

text \<open>
  The value of one token, from its pieces: \<open>true\<close> for a flag without \<open>=\<close>, else the
  decoded second piece, parsed as JSON when it starts with a brace and with the
  backslash dropped when it starts with an escaped brace.
\<close>

definition parse_value :: "host \<Rightarrow> (string \<Rightarrow> error + string) \<Rightarrow> string list \<Rightarrow> error + jsval" where
  "parse_value h decode parts =
     (if length parts < 2 then Inr (VBool True)
      else (case decode (parts ! 1) of
              Inl e \<Rightarrow> Inl e
            | Inr v \<Rightarrow>
                if take 1 v = ''{'' then js_JSON_parse h v
                else if take 2 v = [CHR 0x5C, CHR ''{''] then Inr (VStr (drop 1 v))
                else Inr (VStr v)))"

text \<open>
  The last block of the loop body. When \<open>key in args\<close> holds, the value found
  under the key is wrapped in an array unless it is one, and the new value is pushed;
  otherwise the key is set.
\<close>

definition store :: "host \<Rightarrow> args \<Rightarrow> string \<Rightarrow> jsval \<Rightarrow> error + args" where
  "store h a k v =
     (if has_property h a k then
        push_property h
          (if \<not> isArray (get_property h a k) then wrap_property h a k else a) k v
      else Inr (a\<lparr>own := (own a)(k \<mapsto> v)\<rparr>))"

fun parseArguments_loop ::
  "host \<Rightarrow> (string \<Rightarrow> error + string) \<Rightarrow> string list \<Rightarrow> args \<Rightarrow> error + args" where
  "parseArguments_loop h decode [] a = Inr a"
| "parseArguments_loop h decode (arg # rest) a =
     (let parts = split_on CHR ''='' arg;
          key = strip_dashes (hd parts)
      in (case parse_value h decode parts of
            Inl e \<Rightarrow> Inl e
          | Inr v \<Rightarrow>
              (case store h a key v of
                 Inl e \<Rightarrow> Inl e
               | Inr a' \<Rightarrow> parseArguments_loop h decode rest a')))"

definition parseArguments ::
  "host \<Rightarrow> string list \<Rightarrow> (string \<Rightarrow> error + string) \<Rightarrow> error + args" where
  "parseArguments h rawArgs decode = parseArguments_loop h decode rawArgs empty_args"

text \<open>\<open>rawArgs || process.argv.slice(2)\<close>, decoded by the identity.\<close>

definition fromCommandLine :: "host \<Rightarrow> string list option \<Rightarrow> error + args" where
  "fromCommandLine h rawArgs =
     parseArguments h (case rawArgs of Some r \<Rightarrow> r | None \<Rightarrow> drop 2 (argv h)) (\<lambda>s. Inr s)"

text \<open>
  \<open>query.replace(/^\?/, '').split('&')\<close>, each value through
  \<open>decodeURIComponent\<close>, which throws a \<open>URIError\<close> on a malformed escape.
\<close>

definition fromQueryString :: "host \<Rightarrow> string \<Rightarrow> error + args" where
  "fromQueryString h query =
     parseArguments h
       (split_on CHR ''&'' (if take 1 query = ''?'' then drop 1 query else query))
       (\<lambda>s. case decodeURIComponent h s of Some d \<Rightarrow> Inr d | None \<Rightarrow> Inl URIError)"

section \<open>PreExecutor.getArguments\<close>

text \<open>
  \<open>new RegExp(pattern, flags)\<close> throws a \<open>SyntaxError\<close> when the pattern or the flags
  do not compile. A pattern of letters, digits and underscores always compiles, with
  any flags among \<open>g\<close>, \<open>i\<close>, \<open>m\<close> given once each; the host decides the rest.
\<close>

definition regexp_compiles :: "host \<Rightarrow> string \<Rightarrow> string \<Rightarrow> bool" where
  "regexp_compiles h p f =
     (if list_all is_word_char p \<and> distinct f \<and> list_all (\<lambda>c. c \<in> set ''gim'') f then True
      else RegExp_compiles h p f)"

definition js_new_RegExp :: "host \<Rightarrow> string \<Rightarrow> string \<Rightarrow> error + jsval" where
  "js_new_RegExp h p f = (if regexp_compiles h p f then Inr (VRegExp p f) else Inl SyntaxError)"

text \<open>
  The first block of \<open>getArguments\<close>: the query string on a browser, else the command
  line on Node.js. On neither host \<open>kwArgs\<close> stays undefined and the first property
  read throws.
\<close>

definition rawArguments :: "host \<Rightarrow> error + args" where
  "rawArguments h =
     (if host_browser h then fromQueryString h (location_search h)
      else if host_node h then fromCommandLine h (Some (drop 2 (argv h)))
      else Inl TypeError)"

text \<open>The body of the \<open>forEach\<close> over the list-valued argument names.\<close>

definition normalize_list_arg :: "host \<Rightarrow> args \<Rightarrow> string \<Rightarrow> args" where
  "normalize_list_arg h kwArgs name =
     (let v = get_property h kwArgs name
      in if \<not> is_nullish v \<and> \<not> isArray v
         then kwArgs\<lparr>own := (own kwArgs)(name \<mapsto> (if v = VStr [] then VArr [] else VArr [v]))\<rparr>
         else kwArgs)"

definition list_arg_names :: "string list" where
  "list_arg_names = [''environments'', ''functionalSuites'', ''reporters'', ''suites'']"

text \<open>Lines 110 to 115: the string \<open>true\<close>, any other string, anything else.\<close>

definition normalize_excludeInstrumentation :: "host \<Rightarrow> args \<Rightarrow> error + args" where
  "normalize_excludeInstrumentation h kwArgs =
     (let v = get_property h kwArgs ''excludeInstrumentation''
      in if v = VStr ''true''
         then Inr (kwArgs\<lparr>own := (own kwArgs)(''excludeInstrumentation'' \<mapsto> VBool True)\<rparr>)
         else (case v of
                 VStr s \<Rightarrow>
                   (case js_new_RegExp h s [] of
                      Inl e \<Rightarrow> Inl e
                    | Inr r \<Rightarrow>
                        Inr (kwArgs\<lparr>own := (own kwArgs)(''excludeInstrumentation'' \<mapsto> r)\<rparr>))
               | _ \<Rightarrow> Inr kwArgs))"

definition getArguments :: "host \<Rightarrow> error + args" where
  "getArguments h =
     (case rawArguments h of
        Inl e \<Rightarrow> Inl e
      | Inr kwArgs \<Rightarrow>
          normalize_excludeInstrumentation h (foldl (normalize_list_arg h) kwArgs list_arg_names))"

section \<open>PreExecutor.getConfig\<close>

text \<open>
  A property that holds an object: absent, \<open>null\<close>, or the object. These are the
  fields the declared interfaces give an object type.
\<close>

datatype 'a js_field = Undefined | Null | Obj 'a

text \<open>
  The loader configuration (\<open>IConfig\<close> of dojo/loader): the base URL, the \<open>map\<close> of
  module aliases per requesting package (\<open>*\<close> for all), and the other options, which
  the pre-executor hands on untouched. An object is the list of its own properties.
\<close>

record loader_options =
  baseUrl :: "string option"
  amd_map :: "(string \<times> (string \<times> jsval) list) list option"
  other_options :: "(string \<times> jsval) list"

definition empty_loader_options :: loader_options where
  "empty_loader_options = \<lparr>baseUrl = None, amd_map = None, other_options = []\<rparr>"

record loader_refs =
  loader_host_node :: "string option"
  loader_host_browser :: "string option"

text \<open>
  The configuration after \<open>lang.deepMixin(config, args)\<close>, with the fields
  \<open>getConfig\<close> reads or writes. \<open>None\<close> is an absent (or \<open>null\<close>) string.
\<close>

record config =
  loader :: "loader_options js_field"
  useLoader :: "loader_refs js_field"
  loaderOptions :: "loader_options js_field"
  loaders :: "loader_refs js_field"
  basePath :: "string option"
  initialBaseUrl :: "string option"
  grep :: jsval
  instrumenterOptions :: "(string \<times> jsval) list option"
  coverageVariable :: "string option"
  proxyPort :: jsval
  proxyUrl :: jsval

text \<open>\<open>util.assertSafeModuleId\<close> is not in these sources: \<open>Some e\<close> when it throws \<open>e\<close>.\<close>

record module_host =
  assertSafeModuleId :: "jsval \<Rightarrow> error option"

text \<open>\<open>obj[key] = value\<close> on a list of own properties.\<close>

fun set_prop :: "string \<Rightarrow> 'v \<Rightarrow> (string \<times> 'v) list \<Rightarrow> (string \<times> 'v) list" where
  "set_prop k v [] = [(k, v)]"
| "set_prop k v ((k', v') # kvs) =
     (if k' = k then (k, v) # kvs else (k', v') # set_prop k v kvs)"

definition obj_get :: "jsval \<Rightarrow> string \<Rightarrow> jsval" where
  "obj_get v k =
     (case v of
        VObj kvs \<Rightarrow> (case map_of kvs k of Some x \<Rightarrow> x | None \<Rightarrow> VUndefined)
      | _ \<Rightarrow> VUndefined)"

definition dq :: string where
  "dq = [CHR 0x22]"

text \<open>
  Lines 142 to 160: the two deprecated keys, each recorded as an early event and
  copied (\<open>typeof null\<close> is \<open>'object'\<close> too), then \<open>loaderOptions || {}\<close>.
\<close>

definition deprecated_options :: "config \<Rightarrow> string list list \<Rightarrow> config \<times> string list list" where
  "deprecated_options c ev =
     (let (c1, ev1) =
            (if loader c \<noteq> Undefined
             then (c\<lparr>loaderOptions := loader c\<rparr>,
                   ev @ [[''deprecated'', ''The '' @ dq @ ''loader'' @ dq @ '' configuration option'',
                          dq @ ''loaderOptions'' @ dq]])
             else (c, ev));
          (c2, ev2) =
            (if useLoader c1 \<noteq> Undefined
             then (c1\<lparr>loaders := useLoader c1\<rparr>,
                   ev1 @ [[''deprecated'', ''The '' @ dq @ ''useLoader'' @ dq @ '' configuration option'',
                           dq @ ''loaders'' @ dq]])
             else (c1, ev1))
      in (c2\<lparr>loaderOptions :=
               (case loaderOptions c2 of Obj lo \<Rightarrow> Obj lo | _ \<Rightarrow> Obj empty_loader_options)\<rparr>,
          ev2))"

text \<open>
  Lines 164 to 212, the base path. On Node.js: the working directory when unset,
  normalised, with a slash at the end. On a browser: the default is
  \<open>initialBaseUrl\<close> or the page's path without its last three segments; a base
  path that starts with a dot is resolved against the default.
\<close>

definition resolve_basePath :: "host \<Rightarrow> config \<Rightarrow> config" where
  "resolve_basePath h c =
     (if host_node h then
        c\<lparr>basePath :=
            Some (ensure_trailing_slash
                    (normalizePath h (case basePath c of None \<Rightarrow> cwd h | Some p \<Rightarrow> p)))\<rparr>
      else if host_browser h then
        (let defaultBasePath =
               (case initialBaseUrl c of
                  Some u \<Rightarrow>
                    if u \<noteq> [] then u
                    else normalizePath h (replace_suffix rx_three_segments ''/'' (location_pathname h))
                | None \<Rightarrow>
                    normalizePath h (replace_suffix rx_three_segments ''/'' (location_pathname h)));
             bp = (case basePath c of
                     None \<Rightarrow> defaultBasePath
                   | Some p \<Rightarrow>
                       if take 1 p = ''.'' then normalizePath h (defaultBasePath @ p) else p)
         in c\<lparr>basePath := Some (ensure_trailing_slash bp)\<rparr>)
      else c)"

text \<open>
  The test \<open>isAbsoluteBaseUrl\<close> each host branch assigns; on neither host the
  variable stays undefined. Node.js before 0.12 has no \<open>path.isAbsolute\<close> and gets the
  fallback.
\<close>

definition isAbsoluteBaseUrl :: "host \<Rightarrow> (string \<Rightarrow> bool) option" where
  "isAbsoluteBaseUrl h =
     (if host_node h then
        Some (case path_isAbsolute h of
                Some f \<Rightarrow> f
              | None \<Rightarrow>
                  (\<lambda>path. if path_sep h = ''/'' then take 1 path = ''/''
                          else rx_test_prefix rx_scheme path))
      else if host_browser h then Some (\<lambda>url. rx_test_prefix rx_absolute_url url)
      else None)"

text \<open>
  Lines 216 to 223. An unset (or empty) base URL becomes the base path; one that is
  not absolute becomes \<open>util.normalizePath(basePath + baseUrl)\<close>; calling the
  undefined test throws a \<open>TypeError\<close>.
\<close>

definition resolve_baseUrl :: "host \<Rightarrow> string option \<Rightarrow> loader_options \<Rightarrow> error + loader_options" where
  "resolve_baseUrl h bp lo =
     (case baseUrl lo of
        None \<Rightarrow> Inr (lo\<lparr>baseUrl := bp\<rparr>)
      | Some u \<Rightarrow>
          if u = [] then Inr (lo\<lparr>baseUrl := bp\<rparr>)
          else (case isAbsoluteBaseUrl h of
                  None \<Rightarrow> Inl TypeError
                | Some isAbs \<Rightarrow>
                    if \<not> isAbs u
                    then Inr (lo\<lparr>baseUrl :=
                                Some (normalizePath h
                                        ((case bp of Some b \<Rightarrow> b | None \<Rightarrow> ''undefined'') @ u))\<rparr>)
                    else Inr lo))"

text \<open>
  \<open>/^\/(.*)\/([gim]*)$/.exec(s)\<close>. The flags hold no slash, so the second slash of
  a match is the last slash of \<open>s\<close>; the dot matches no line terminator.
\<close>

definition line_terminators :: string where
  "line_terminators = [CHR 0x0A, CHR 0x0D]"

definition grep_literal :: "string \<Rightarrow> (string \<times> string) option" where
  "grep_literal s =
     (case s of
        [] \<Rightarrow> None
      | c # rest \<Rightarrow>
          if c = CHR ''/'' \<and> CHR ''/'' \<in> set rest then
            (let flags = rev (takeWhile (\<lambda>x. x \<noteq> CHR ''/'') (rev rest));
                 pattern = take (length rest - length flags - 1) rest
             in if list_all (\<lambda>x. x \<in> set ''gim'') flags
                   \<and> list_all (\<lambda>x. x \<notin> set line_terminators) pattern
                then Some (pattern, flags)
                else None)
          else None)"

text \<open>
  Lines 225 to 237. \<open>exec\<close> converts its argument to a string. In the last branch a
  regular expression object with flags is a \<open>TypeError\<close> before ECMAScript 2015.
\<close>

definition compile_grep :: "host \<Rightarrow> jsval \<Rightarrow> error + jsval" where
  "compile_grep h g =
     (if is_nullish g then js_new_RegExp h [] []
      else (case grep_literal (js_ToString h g) of
              Some (p, f) \<Rightarrow> js_new_RegExp h p f
            | None \<Rightarrow>
                (case g of
                   VRegExp p f \<Rightarrow>
                     if RegExp_from_RegExp h then js_new_RegExp h p ''i'' else Inl TypeError
                 | _ \<Rightarrow> js_new_RegExp h (js_ToString h g) ''i'')))"

text \<open>Lines 239 to 243.\<close>

definition resolve_instrumenterOptions :: "config \<Rightarrow> config" where
  "resolve_instrumenterOptions c =
     (let io = (case instrumenterOptions c of Some x \<Rightarrow> x | None \<Rightarrow> [])
      in c\<lparr>instrumenterOptions :=
            Some (case coverageVariable c of
                    Some v \<Rightarrow> if v \<noteq> [] then set_prop ''coverageVariable'' (VStr v) io else io
                  | None \<Rightarrow> io)\<rparr>)"

text \<open>Lines 245 to 253: \<open>isNaN\<close> of a string is \<open>Number\<close> of it being \<open>NaN\<close>.\<close>

definition resolve_proxyPort :: "host \<Rightarrow> jsval \<Rightarrow> error + jsval" where
  "resolve_proxyPort h port =
     (if is_nullish port then Inr (VNum (Finite 9000))
      else (case port of
              VStr s \<Rightarrow>
                if js_Number h s = NaN then Inl (Error ''proxyPort must be a number'')
                else Inr (VNum (js_Number h s))
            | _ \<Rightarrow> Inr port))"

text \<open>Lines 256 to 258.\<close>

definition resolve_proxyUrl :: "host \<Rightarrow> jsval \<Rightarrow> jsval \<Rightarrow> jsval" where
  "resolve_proxyUrl h port url =
     (if is_nullish url then VStr (''http://localhost:'' @ js_ToString h port @ ''/'') else url)"

text \<open>
  The callback that resolves the loaded and merged configuration, with the early
  events it records. A \<open>throw\<close> inside it rejects the promise.
\<close>

definition getConfig_then ::
  "host \<Rightarrow> module_host \<Rightarrow> args \<Rightarrow> config \<Rightarrow> string list list \<Rightarrow> (error + config) \<times> string list list" where
  "getConfig_then h m args merged ev =
     (let (c0, ev') = deprecated_options merged ev;
          c1 = resolve_basePath h c0;
          unsafe =
            (if \<not> host_node h \<and> host_browser h
                \<and> truthy (get_property h args ''loaders'')
                \<and> truthy (obj_get (get_property h args ''loaders'') ''host-browser'')
             then assertSafeModuleId m (obj_get (get_property h args ''loaders'') ''host-browser'')
             else None)
      in (case unsafe of
            Some e \<Rightarrow> (Inl e, ev')
          | None \<Rightarrow>
              (case resolve_baseUrl h (basePath c1)
                      (case loaderOptions c1 of Obj lo \<Rightarrow> lo | _ \<Rightarrow> empty_loader_options) of
                 Inl e \<Rightarrow> (Inl e, ev')
               | Inr lo \<Rightarrow>
                   (case compile_grep h (grep c1) of
                      Inl e \<Rightarrow> (Inl e, ev')
                    | Inr g \<Rightarrow>
                        (case resolve_proxyPort h (proxyPort c1) of
                           Inl e \<Rightarrow> (Inl e, ev')
                         | Inr port \<Rightarrow>
                             (Inr ((resolve_instrumenterOptions c1)
                                     \<lparr>loaderOptions := Obj lo,
                                      grep := g,
                                      proxyPort := port,
                                      proxyUrl := resolve_proxyUrl h port (proxyUrl c1)\<rparr>),
                              ev'))))))"

text \<open>
  Line 137 calls \<open>replace\<close> on \<open>this.defaultLoaderOptions.baseUrl\<close> and on the module
  id, which throws a \<open>TypeError\<close> unless both are strings.
\<close>

definition module_url_defined :: "loader_options option \<Rightarrow> jsval \<Rightarrow> bool" where
  "module_url_defined dflt moduleId =
     (case dflt of
        None \<Rightarrow> False
      | Some d \<Rightarrow>
          (case baseUrl d of
             None \<Rightarrow> False
           | Some b \<Rightarrow> (case moduleId of VStr s \<Rightarrow> True | _ \<Rightarrow> False)))"

text \<open>
  \<open>getConfig\<close>: the guards on \<open>args.config\<close>, the URL of the configuration module,
  then the callback on the configuration that \<open>util.getModule\<close> and
  \<open>lang.deepMixin\<close> (neither in these sources) produced from that module and the
  arguments, given here as \<open>merged\<close>.
\<close>

definition getConfig ::
  "host \<Rightarrow> module_host \<Rightarrow> loader_options option \<Rightarrow> args \<Rightarrow> config \<Rightarrow> string list list
     \<Rightarrow> (error + config) \<times> string list list" where
  "getConfig h m dflt args merged ev =
     (if \<not> truthy (get_property h args ''config'')
      then (Inl (Error (''Missing required argument '' @ dq @ ''config'' @ dq)), ev)
      else (case assertSafeModuleId m (get_property h args ''config'') of
              Some e \<Rightarrow> (Inl e, ev)
            | None \<Rightarrow>
                if \<not> module_url_defined dflt (get_property h args ''config'')
                then (Inl TypeError, ev)
                else getConfig_then h m args merged ev))"

section \<open>PreExecutor.swapLoader\<close>

text \<open>
  What a loader swap reads and writes: the global \<open>require\<close> and \<open>define\<close> slots (a
  loader is known by its name), the keys of Node's \<open>require.cache\<close>, the modules
  Node has executed, the scripts added to the page, and the configuration objects
  handed to each loader, in order.
\<close>

record swap_state =
  global_require :: "string option"
  global_define :: "string option"
  module_cache :: "string list"
  executed :: "string list"
  injected_scripts :: "string list"
  configured :: "(string \<times> loader_options option) list"

text \<open>
  The module systems, whose code is not in these sources. \<open>has_nodeRequire\<close>:
  whether a loader carries Node's \<open>require\<close>; \<open>require_resolve\<close>: the file a module
  id resolves to, or the error thrown; \<open>findPath\<close>: \<open>_findPath(id,
  _nodeModulePaths(basePath))\<close> when Node's \<open>module\<close> has both, \<open>None\<close> for its
  \<open>false\<close>; \<open>module_exports\<close>: the loader a module file exports when its export is a
  function; \<open>module_registers\<close>: the loader a module file installs in the global slots
  when it is executed; \<open>script_result\<close>: \<open>None\<close> when the script fails to load, else the
  globals \<open>curl\<close>, \<open>requirejs\<close>, \<open>require\<close> and \<open>define\<close> found after it has loaded.
\<close>

record swap_host =
  has_nodeRequire :: "string \<Rightarrow> bool"
  require_resolve :: "string \<Rightarrow> error + string"
  findPath :: "(string \<Rightarrow> string \<Rightarrow> string option) option"
  module_exports :: "string \<Rightarrow> string option"
  module_registers :: "string \<Rightarrow> string option"
  isAbsoluteUrl :: "string \<Rightarrow> bool"
  script_src :: "string \<Rightarrow> string"
  script_result :: "string \<Rightarrow> (string option \<times> string option \<times> string option \<times> string option) option"

text \<open>
  Node's \<open>require(id)\<close>: a file in the cache is not executed again; a new one is
  executed, which may fill the global slots, and enters the cache.
\<close>

definition node_require :: "swap_host \<Rightarrow> string \<Rightarrow> swap_state \<Rightarrow> error + (string option \<times> swap_state)" where
  "node_require sh ident st =
     (case require_resolve sh ident of
        Inl e \<Rightarrow> Inl e
      | Inr file \<Rightarrow>
          if file \<in> set (module_cache st) then Inr (module_exports sh file, st)
          else Inr (module_exports sh file,
                    st\<lparr>module_cache := module_cache st @ [file],
                       executed := executed st @ [file],
                       global_require :=
                         (case module_registers sh file of
                            Some l \<Rightarrow> Some l
                          | None \<Rightarrow> global_require st),
                       global_define :=
                         (case module_registers sh file of
                            Some l \<Rightarrow> Some l
                          | None \<Rightarrow> global_define st)\<rparr>))"

definition nonempty :: "string option \<Rightarrow> bool" where
  "nonempty x = (case x of Some s \<Rightarrow> s \<noteq> [] | None \<Rightarrow> False)"

text \<open>
  The executor of the promise, lines 481 to 544: the loader the promise resolves with
  (\<open>None\<close> for \<open>undefined\<close>) or the error it rejects with, and the state left behind.
\<close>

definition swapLoader_executor ::
  "host \<Rightarrow> swap_host \<Rightarrow> string \<Rightarrow> loader_refs js_field \<Rightarrow> swap_state
     \<Rightarrow> (error + string option) \<times> swap_state" where
  "swapLoader_executor h sh bp refs st =
     (let ls = (case refs of Obj r \<Rightarrow> r
                | _ \<Rightarrow> \<lparr>loader_host_node = None, loader_host_browser = None\<rparr>)
      in if host_node h \<and> nonempty (loader_host_node ls) then
           (case global_require st of
              None \<Rightarrow> (Inl TypeError, st)
            | Some active \<Rightarrow>
                if \<not> has_nodeRequire sh active then (Inl TypeError, st)
                else (case require_resolve sh (the (loader_host_node ls)) of
                        Inl e \<Rightarrow> (Inl e, st)
                      | Inr file \<Rightarrow>
                          if file \<in> set (module_cache st) then (Inr (global_require st), st)
                          else
                            (let st1 = st\<lparr>global_require := None, global_define := None\<rparr>;
                                 ident =
                                   (case findPath sh of
                                      Some f \<Rightarrow>
                                        (case f (the (loader_host_node ls)) bp of
                                           Some localModulePath \<Rightarrow> localModulePath
                                         | None \<Rightarrow> the (loader_host_node ls))
                                    | None \<Rightarrow> the (loader_host_node ls))
                             in (case node_require sh ident st1 of
                                   Inl e \<Rightarrow> (Inl e, st1)
                                 | Inr (exported, st2) \<Rightarrow>
                                     (let amdRequire =
                                            (case exported of
                                               Some l \<Rightarrow> Some l
                                             | None \<Rightarrow> global_require st2)
                                      in (Inr amdRequire,
                                          if global_require st2 = None
                                          then st2\<lparr>global_require := amdRequire\<rparr>
                                          else st2))))))
         else if host_browser h \<and> nonempty (loader_host_browser ls) then
           (let loaderUrl =
                  (if isAbsoluteUrl sh (the (loader_host_browser ls))
                   then the (loader_host_browser ls)
                   else bp @ the (loader_host_browser ls));
                st1 = st\<lparr>global_require := None, global_define := None,
                         injected_scripts := injected_scripts st @ [loaderUrl]\<rparr>
            in (case script_result sh loaderUrl of
                  None \<Rightarrow>
                    (Inl (Error (''Failed to load AMD loader from '' @ script_src sh loaderUrl)),
                     st1\<lparr>injected_scripts := injected_scripts st\<rparr>)
                | Some (curl, requirejs, req, def) \<Rightarrow>
                    (Inr (case curl of
                            Some l \<Rightarrow> Some l
                          | None \<Rightarrow> (case requirejs of Some l \<Rightarrow> Some l | None \<Rightarrow> req)),
                     st1\<lparr>global_require := req, global_define := def\<rparr>)))
         else (Inr (global_require st), st))"

text \<open>
  \<open>key in userStarMap\<close>, on an object given by its own properties, with
  \<open>Object.prototype\<close> as its prototype.
\<close>

definition key_in :: "string \<Rightarrow> (string \<times> jsval) list \<Rightarrow> bool" where
  "key_in k obj =
     (case map_of obj k of Some v \<Rightarrow> True | None \<Rightarrow> k \<in> set object_prototype_keys)"

text \<open>
  Lines 556 to 560: each key of the default map that is not \<open>in\<close> the user's map is
  set on the user's map.
\<close>

fun merge_star_map :: "(string \<times> jsval) list \<Rightarrow> (string \<times> jsval) list \<Rightarrow> (string \<times> jsval) list" where
  "merge_star_map [] userStarMap = userStarMap"
| "merge_star_map ((key, v) # defaultStarMap) userStarMap =
     merge_star_map defaultStarMap
       (if \<not> key_in key userStarMap then set_prop key v userStarMap else userStarMap)"

text \<open>\<open>options.map && options.map['*']\<close>\<close>

definition star_map :: "loader_options \<Rightarrow> (string \<times> jsval) list option" where
  "star_map lo = (case amd_map lo of Some m \<Rightarrow> map_of m ''*'' | None \<Rightarrow> None)"

text \<open>Lines 550 to 561: the user's options as they are handed to the loader.\<close>

definition merged_options :: "loader_options option \<Rightarrow> loader_options \<Rightarrow> loader_options" where
  "merged_options dflt lo =
     (case star_map lo of
        None \<Rightarrow> lo
      | Some userStarMap \<Rightarrow>
          (case dflt of
             None \<Rightarrow> lo
           | Some d \<Rightarrow>
               (case star_map d of
                  None \<Rightarrow> lo
                | Some defaultStarMap \<Rightarrow>
                    lo\<lparr>amd_map :=
                         Some (set_prop ''*'' (merge_star_map defaultStarMap userStarMap)
                                 (the (amd_map lo)))\<rparr>)))"

text \<open>
  The \<open>then\<close> callback, lines 545 to 567: the defaults first, then the user's options
  if there are any. Reading \<open>config\<close> from an undefined loader throws.
\<close>

definition configure_loader ::
  "loader_options option \<Rightarrow> loader_options option \<Rightarrow> string option \<Rightarrow> swap_state
     \<Rightarrow> (error + string option) \<times> swap_state" where
  "configure_loader dflt loaderOpts l st =
     (case l of
        None \<Rightarrow> (Inl TypeError, st)
      | Some ld \<Rightarrow>
          (Inr (Some ld),
           st\<lparr>configured :=
                configured st @ [(ld, dflt)] @
                (case loaderOpts of
                   Some lo \<Rightarrow> [(ld, Some (merged_options dflt lo))]
                 | None \<Rightarrow> [])\<rparr>))"

definition swapLoader ::
  "host \<Rightarrow> swap_host \<Rightarrow> loader_options option \<Rightarrow> string \<Rightarrow> loader_refs js_field
     \<Rightarrow> loader_options option \<Rightarrow> swap_state \<Rightarrow> (error + string option) \<times> swap_state" where
  "swapLoader h sh dflt bp refs loaderOpts st =
     (case swapLoader_executor h sh bp refs st of
        (Inl e, st1) \<Rightarrow> (Inl e, st1)
      | (Inr l, st1) \<Rightarrow> configure_loader dflt loaderOpts l st1)"

section \<open>The error reporting bridge\<close>

text \<open>
  An error object, with the fields the pre-executor reads. \<open>reported\<close> is the marker
  the catch handler of \<open>run\<close> tests; an absent marker is \<open>False\<close>.
\<close>

record error_obj =
  err_name :: string
  err_message :: string
  err_stack :: string
  reported :: bool

text \<open>The object \<open>sendErrorToConduit\<close> serialises, and the request it sends.\<close>

record conduit_message =
  msg_sequence :: nat
  msg_sessionId :: string
  msg_payload :: "string \<times> error_obj \<times> string"

record post =
  post_url :: string
  post_method :: string
  post_content_type :: string
  post_data :: "string list"

text \<open>
  The state the bridge works on: the \<open>sequence\<close> counter in the closure of
  \<open>sendErrorToConduit\<close>, the requests sent, the error blocks appended to the
  document, the console, the exit status once \<open>process.exit\<close> has been called, and
  the errors \<open>_handleError\<close> has been called with, in order.
\<close>

record bridge_state =
  sequence :: nat
  posts :: "post list"
  document_body :: "string list"
  console_errors :: "string list"
  exit_code :: "nat option"
  handled :: "error_obj list"

text \<open>
  \<open>JSON.stringify\<close> of the message (\<open>None\<close> when it throws),
  \<open>util.getErrorMessage\<close>, and whether a \<open>console\<close> exists.
\<close>

record bridge_host =
  stringify_message :: "conduit_message \<Rightarrow> string option"
  getErrorMessage :: "error_obj \<Rightarrow> string"
  has_console :: bool

text \<open>
  \<open>/[?&]sessionId=([^&]+)/.exec(search)\<close>: the first place where a question mark or
  an ampersand is followed by \<open>sessionId=\<close> and one character more that is no
  ampersand; the capture runs to the next ampersand.
\<close>

fun session_id_of :: "string \<Rightarrow> string option" where
  "session_id_of [] = None"
| "session_id_of (c # cs) =
     (if (c = CHR ''?'' \<or> c = CHR ''&'') \<and> take 10 cs = ''sessionId=''
         \<and> take 1 (drop 10 cs) \<noteq> [] \<and> take 1 (drop 10 cs) \<noteq> ''&''
      then Some (takeWhile (\<lambda>x. x \<noteq> CHR ''&'') (drop 10 cs))
      else session_id_of cs)"

definition sendErrorToConduit ::
  "host \<Rightarrow> bridge_host \<Rightarrow> error_obj \<Rightarrow> bridge_state \<Rightarrow> error + bridge_state" where
  "sendErrorToConduit h bh err st =
     (case session_id_of (location_search h) of
        None \<Rightarrow> Inr st
      | Some raw \<Rightarrow>
          (case decodeURIComponent h raw of
             None \<Rightarrow> Inl URIError
           | Some sessionId \<Rightarrow>
               (case stringify_message bh
                       \<lparr>msg_sequence = sequence st, msg_sessionId = sessionId,
                        msg_payload = (''fatalError'', err, sessionId)\<rparr> of
                  None \<Rightarrow> Inl TypeError
                | Some text \<Rightarrow>
                    Inr (st\<lparr>posts := posts st @
                                [\<lparr>post_url = toUrl h ''intern/'', post_method = ''POST'',
                                  post_content_type = ''application/json'',
                                  post_data = [text]\<rparr>],
                             sequence := sequence st + 1\<rparr>))))"

text \<open>\<open>.replace(/&/g, '&amp;').replace(/</g, '&lt;')\<close>\<close>

definition escape_html :: "string \<Rightarrow> string" where
  "escape_html s =
     concat (map (\<lambda>c. if c = CHR ''&'' then ''&amp;'' else if c = CHR ''<'' then ''&lt;'' else [c]) s)"

text \<open>\<open>s.slice(-10)\<close>: the last ten characters, or all of a shorter string.\<close>

definition last_ten :: "string \<Rightarrow> string" where
  "last_ten s = drop (length s - 10) s"

text \<open>
  \<open>location.pathname.replace(/\/+[^\/]*$/, '/').slice(-10) === '/__intern/'\<close>: the page is
  served from the directory \<open>__intern\<close> of the proxy.
\<close>

definition served_under_intern :: "host \<Rightarrow> bool" where
  "served_under_intern h =
     (last_ten (replace_suffix rx_segment ''/'' (location_pathname h)) = ''/__intern/'')"

text \<open>
  \<open>_handleError\<close>. On a browser: the conduit when the page is served under
  \<open>/__intern/\<close>, then the error block. Elsewhere, with a console: the message, and on
  Node.js \<open>process.exit(1)\<close>. An exception of the conduit leaves the handler at once.
\<close>

definition handleError ::
  "host \<Rightarrow> bridge_host \<Rightarrow> error_obj \<Rightarrow> bridge_state \<Rightarrow> error option \<times> bridge_state" where
  "handleError h bh err st0 =
     (let st = st0\<lparr>handled := handled st0 @ [err]\<rparr>
      in if host_browser h then
           (case (if served_under_intern h then sendErrorToConduit h bh err st else Inr st) of
              Inl e \<Rightarrow> (Some e, st)
            | Inr st1 \<Rightarrow>
                (None,
                 st1\<lparr>document_body := document_body st1 @
                       [''<h1>Fatal error during pre-execution stage</h1>'' @
                        ''<pre style='' @ dq @ ''padding: 1em; background-color: #f0f0f0;'' @ dq @ ''>'' @
                        escape_html (getErrorMessage bh err) @ ''</pre>'']\<rparr>))
         else if has_console bh then
           (let st1 = st\<lparr>console_errors := console_errors st @ [getErrorMessage bh err]\<rparr>
            in (None, if host_node h then st1\<lparr>exit_code := Some 1\<rparr> else st1))
         else (None, st))"

text \<open>
  How the catch handler at the end of the chain in \<open>run\<close> leaves: it throws the error
  it caught, or the exception of the handler, or the process has exited.
\<close>

datatype rejection = Rethrown error_obj | Thrown error | Exited

text \<open>Lines 456 to 462.\<close>

definition run_catch ::
  "host \<Rightarrow> bridge_host \<Rightarrow> error_obj \<Rightarrow> bridge_state \<Rightarrow> rejection \<times> bridge_state" where
  "run_catch h bh err st =
     (if \<not> reported err then
        (case handleError h bh err st of
           (Some e, st1) \<Rightarrow> (Thrown e, st1)
         | (None, st1) \<Rightarrow> (if exit_code st1 \<noteq> None then Exited else Rethrown err, st1))
      else (Rethrown err, st))"

section \<open>PreExecutor.registerErrorHandler\<close>

text \<open>
  A listener on \<open>uncaughtException\<close> is a function: a handler itself, or the
  anonymous function that \<open>registerErrorHandler\<close> creates around a handler, a new one at
  each call (numbered). Handlers are known by name.
\<close>

datatype listener = Handler string | Wrapper nat string

text \<open>
  The handle of dojo/aspect, for one piece of advice, or the object the Node.js branch
  returns, which keeps its handler.
\<close>

datatype handle = AspectHandle nat | NodeHandle nat string

text \<open>
  \<open>_earlyErrorHandle\<close>, the advice before \<open>window.onerror\<close> (the latest first), the
  listeners of \<open>uncaughtException\<close> (the oldest first), the Node.js handles whose
  \<open>remove\<close> has replaced itself by an empty function, and a counter for fresh objects.
\<close>

record handler_state =
  earlyErrorHandle :: "handle option"
  onerror_advice :: "(nat \<times> string) list"
  uncaught_listeners :: "listener list"
  spent_handles :: "nat list"
  fresh :: nat

text \<open>\<open>process.removeListener\<close>: the most recently added instance of the function goes.\<close>

fun remove_first :: "'a \<Rightarrow> 'a list \<Rightarrow> 'a list" where
  "remove_first x [] = []"
| "remove_first x (y # ys) = (if x = y then ys else y # remove_first x ys)"

definition removeListener :: "listener \<Rightarrow> listener list \<Rightarrow> listener list" where
  "removeListener l ls = rev (remove_first l (rev ls))"

text \<open>
  \<open>handle.remove()\<close>. The handle of dojo/aspect (not in these sources) detaches its
  advice. The Node.js handle, lines 334 to 337, calls \<open>process.removeListener\<close> with
  \<open>handler\<close>.
\<close>

definition remove_handle :: "handle \<Rightarrow> handler_state \<Rightarrow> handler_state" where
  "remove_handle hdl st =
     (case hdl of
        AspectHandle i \<Rightarrow> st\<lparr>onerror_advice := filter (\<lambda>(j, f). j \<noteq> i) (onerror_advice st)\<rparr>
      | NodeHandle i handler \<Rightarrow>
          if i \<in> set (spent_handles st) then st
          else st\<lparr>spent_handles := i # spent_handles st,
                  uncaught_listeners := removeListener (Handler handler) (uncaught_listeners st)\<rparr>)"

definition registerErrorHandler ::
  "host \<Rightarrow> string \<Rightarrow> handler_state \<Rightarrow> handle option \<times> handler_state" where
  "registerErrorHandler h handler st0 =
     (let st = (case earlyErrorHandle st0 of
                  Some hdl \<Rightarrow> (remove_handle hdl st0)\<lparr>earlyErrorHandle := None\<rparr>
                | None \<Rightarrow> st0)
      in if host_browser h then
           (Some (AspectHandle (fresh st)),
            st\<lparr>onerror_advice := (fresh st, handler) # onerror_advice st, fresh := fresh st + 1\<rparr>)
         else if host_node h then
           (Some (NodeHandle (fresh st) handler),
            st\<lparr>uncaught_listeners := uncaught_listeners st @ [Wrapper (fresh st) handler],
               fresh := fresh st + 1\<rparr>)
         else (None, st))"

text \<open>\<open>this._earlyErrorHandle = this.registerErrorHandler(earlyErrorHandler)\<close> in \<open>run\<close>.\<close>

definition register_early :: "host \<Rightarrow> handler_state \<Rightarrow> handler_state" where
  "register_early h st =
     (case registerErrorHandler h ''_handleError'' st of
        (hdl, st1) \<Rightarrow> st1\<lparr>earlyErrorHandle := hdl\<rparr>)"

text \<open>The handlers that an uncaught error reaches.\<close>

definition active_handlers :: "host \<Rightarrow> handler_state \<Rightarrow> string list" where
  "active_handlers h st =
     (if host_browser h then map snd (onerror_advice st)
      else concat (map (\<lambda>l. case l of Handler f \<Rightarrow> [f] | Wrapper i f \<Rightarrow> [f]) (uncaught_listeners st)))"

definition initial_handlers :: handler_state where
  "initial_handlers =
     \<lparr>earlyErrorHandle = None, onerror_advice = [], uncaught_listeners = [],
      spent_handles = [], fresh = 0\<rparr>"

section \<open>Notions the properties are stated with\<close>

text \<open>The key of a token, as the loop body computes it.\<close>

definition token_key :: "string \<Rightarrow> string" where
  "token_key arg = strip_dashes (hd (split_on CHR ''='' arg))"

text \<open>The values of the tokens with a given key, in the order of the tokens.\<close>

fun values_of :: "host \<Rightarrow> (string \<Rightarrow> error + string) \<Rightarrow> string \<Rightarrow> string list \<Rightarrow> jsval list" where
  "values_of h decode k [] = []"
| "values_of h decode k (arg # rest) =
     (if token_key arg = k
      then (case parse_value h decode (split_on CHR ''='' arg) of
              Inr v \<Rightarrow> [v]
            | Inl e \<Rightarrow> [])
      else []) @ values_of h decode k rest"

text \<open>
  What repeated keys are to give: nothing for no occurrence, the value itself for
  one, the array of the values in order for more.
\<close>

definition collected :: "jsval list \<Rightarrow> jsval option" where
  "collected vs = (case vs of [] \<Rightarrow> None | [v] \<Rightarrow> Some v | _ \<Rightarrow> Some (VArr vs))"

text \<open>
  The loader options \<open>getConfig\<close> starts from: those under the deprecated key
  \<open>loader\<close> when it is set, else those under \<open>loaderOptions\<close>, else none.
\<close>

definition given_loaderOptions :: "config \<Rightarrow> loader_options" where
  "given_loaderOptions c =
     (case (if loader c \<noteq> Undefined then loader c else loaderOptions c) of
        Obj lo \<Rightarrow> lo
      | _ \<Rightarrow> empty_loader_options)"

text \<open>
  \<open>regexp.test(s)\<close> for a new regular expression. A pattern of letters, digits and
  underscores matches where it occurs in \<open>s\<close>, with the \<open>i\<close> flag whatever the case
  of the letters; the host matches every other pattern.
\<close>

fun occurs_in :: "string \<Rightarrow> string \<Rightarrow> bool" where
  "occurs_in p [] = (p = [])"
| "occurs_in p (c # cs) = (take (length p) (c # cs) = p \<or> occurs_in p cs)"

definition lower_char :: "char \<Rightarrow> char" where
  "lower_char c =
     (case map_of (zip ''ABCDEFGHIJKLMNOPQRSTUVWXYZ'' ''abcdefghijklmnopqrstuvwxyz'') c of
        Some l \<Rightarrow> l
      | None \<Rightarrow> c)"

definition js_regexp_test :: "host \<Rightarrow> jsval \<Rightarrow> string \<Rightarrow> bool" where
  "js_regexp_test h r s =
     (case r of
        VRegExp p f \<Rightarrow>
          if list_all is_word_char p then
            (if CHR ''i'' \<in> set f then occurs_in (map lower_char p) (map lower_char s)
             else occurs_in p s)
          else RegExp_test h p f s
      | _ \<Rightarrow> False)"

text \<open>The base URL a resolution ends with, if it ends with one.\<close>

definition resolved_baseUrl :: "error + config \<Rightarrow> string option" where
  "resolved_baseUrl r =
     (case r of
        Inr c \<Rightarrow> (case loaderOptions c of Obj lo \<Rightarrow> baseUrl lo | _ \<Rightarrow> None)
      | Inl e \<Rightarrow> None)"


text \<open>The host's test for an absolute base URL, false where the host has none.\<close>

definition is_absolute_on :: "host \<Rightarrow> string \<Rightarrow> bool" where
  "is_absolute_on h u = (case isAbsoluteBaseUrl h of Some isAbs \<Rightarrow> isAbs u | None \<Rightarrow> False)"

text \<open>The map an object given by its own properties stands for; none is empty.\<close>

definition alias_map :: "(string \<times> jsval) list option \<Rightarrow> (string \<rightharpoonup> jsval)" where
  "alias_map m = (case m of Some kvs \<Rightarrow> map_of kvs | None \<Rightarrow> Map.empty)"

text \<open>The wildcard map of the default loader options, if there is one.\<close>

definition default_star :: "loader_options option \<Rightarrow> (string \<times> jsval) list option" where
  "default_star dflt = (case dflt of Some d \<Rightarrow> star_map d | None \<Rightarrow> None)"

text \<open>
  The union a merge of module aliases is to give: the user's entries, and the default
  entries under the keys the user did not set.
\<close>

definition alias_union ::
  "(string \<times> jsval) list option \<Rightarrow> (string \<times> jsval) list option \<Rightarrow> (string \<rightharpoonup> jsval)" where
  "alias_union dflt user = alias_map dflt ++ alias_map user"

text \<open>Loader options that hold a wildcard map only.\<close>

definition star_options :: "(string \<times> jsval) list \<Rightarrow> loader_options" where
  "star_options m = \<lparr>baseUrl = None, amd_map = Some [(''*'', m)], other_options = []\<rparr>"

definition initial_swap :: swap_state where
  "initial_swap =
     \<lparr>global_require = Some ''dojo'', global_define = Some ''dojo'',
      module_cache = [], executed = [], injected_scripts = [], configured = []\<rparr>"

definition example_swap_host :: swap_host where
  "example_swap_host =
     \<lparr>has_nodeRequire = (\<lambda>l. True),
      require_resolve = (\<lambda>ident. Inr (''/home/project/node_modules/'' @ ident @ ''.js'')),
      findPath = None,
      module_exports = (\<lambda>file. None),
      module_registers = (\<lambda>file. Some file),
      isAbsoluteUrl = (\<lambda>u. take 1 u = ''/''),
      script_src = (\<lambda>u. u),
      script_result = (\<lambda>u. None)\<rparr>"

text \<open>A host on which only the bootstrap loader carries Node's \<open>require\<close>.\<close>

definition bare_loader_host :: swap_host where
  "bare_loader_host = example_swap_host\<lparr>has_nodeRequire := (\<lambda>l. l = ''dojo'')\<rparr>"

text \<open>The loader's state and the bridge's state when the pre-executor starts.\<close>

definition initial_bridge :: bridge_state where
  "initial_bridge =
     \<lparr>sequence = 0, posts = [], document_body = [], console_errors = [],
      exit_code = None, handled = []\<rparr>"

text \<open>Hosts for the examples: Node.js on a POSIX system, and a browser.\<close>

definition example_node :: host where
  "example_node =
     \<lparr>host_browser = False, host_node = True,
      argv = [''node'', ''client.js'', ''config=tests/intern''],
      cwd = ''/home/project'', path_sep = ''/'',
      path_isAbsolute = Some (\<lambda>p. take 1 p = ''/''),
      location_search = [], location_pathname = [],
      decodeURIComponent = (\<lambda>s. Some s), JSON_parse = (\<lambda>s. None),
      host_number_value = (\<lambda>s. None), binary_octal_literals = True,
      array_prototype_keys = [''constructor'', ''concat'', ''join'', ''pop'', ''push'', ''slice''],
      host_ToString = (\<lambda>v. ''[object Object]''),
      RegExp_compiles = (\<lambda>p f. False), RegExp_from_RegExp = True,
      RegExp_test = (\<lambda>p f s. False),
      normalizePath = (\<lambda>p. p), toUrl = (\<lambda>p. ''/'' @ p)\<rparr>"

definition example_browser :: host where
  "example_browser =
     example_node
       \<lparr>host_browser := True, host_node := False, argv := [],
        location_search := ''?sessionId=abc123'',
        location_pathname := ''/__intern/client.html''\<rparr>"

definition example_defaults :: "loader_options option" where
  "example_defaults = Some (empty_loader_options\<lparr>baseUrl := Some ''/home/project''\<rparr>)"

definition example_args :: args where
  "example_args = empty_args\<lparr>own := [''config'' \<mapsto> VStr ''tests/intern'']\<rparr>"

definition example_modules :: module_host where
  "example_modules = \<lparr>assertSafeModuleId = (\<lambda>v. None)\<rparr>"

definition example_config :: config where
  "example_config =
     \<lparr>loader = Undefined, useLoader = Undefined, loaderOptions = Undefined,
      loaders = Undefined, basePath = None, initialBaseUrl = None, grep = VUndefined,
      instrumenterOptions = None, coverageVariable = None,
      proxyPort = VUndefined, proxyUrl = VUndefined\<rparr>"

definition example_bridge :: bridge_host where
  "example_bridge =
     \<lparr>stringify_message =
        (\<lambda>m. Some (''{sequence:'' @ digits_of_nat (msg_sequence m) @ '',sessionId:'' @
                     msg_sessionId m @ ''}'')),
      getErrorMessage = (\<lambda>e. err_name e @ '': '' @ err_message e),
      has_console = True\<rparr>"

definition example_error :: error_obj where
  "example_error =
     \<lparr>err_name = ''Error'', err_message = ''boom'', err_stack = [], reported = False\<rparr>"

section \<open>Properties\<close>

subsection \<open>The matcher\<close>

text \<open>What the derivative matcher accepts, constructor by constructor.\<close>

lemma rx_match_Zero: "\<not> rx_match Zero w"
  by (induction w) simp_all

lemma rx_match_One: "rx_match One w \<longleftrightarrow> w = []"
  by (cases w) (simp_all add: rx_match_Zero)

lemma rx_match_Cls: "rx_match (Cls P) w \<longleftrightarrow> (\<exists>c. w = [c] \<and> P c)"
  by (cases w) (simp_all add: rx_match_One rx_match_Zero)

lemma rx_match_Alt: "rx_match (Alt r s) w \<longleftrightarrow> rx_match r w \<or> rx_match s w"
  by (induction w arbitrary: r s) simp_all

lemma rx_match_Seq:
  "rx_match (Seq r s) w \<longleftrightarrow> (\<exists>u v. w = u @ v \<and> rx_match r u \<and> rx_match s v)"
proof (induction w arbitrary: r s)
  case Nil
  then show ?case by simp
next
  case (Cons c cs)
  have split: "(\<exists>u v. c # cs = u @ v \<and> rx_match r u \<and> rx_match s v)
     \<longleftrightarrow> (nullable r \<and> rx_match (deriv c s) cs)
         \<or> (\<exists>u v. cs = u @ v \<and> rx_match (deriv c r) u \<and> rx_match s v)"
  proof
    assume "\<exists>u v. c # cs = u @ v \<and> rx_match r u \<and> rx_match s v"
    then obtain u v where uv: "c # cs = u @ v" "rx_match r u" "rx_match s v" by blast
    show "(nullable r \<and> rx_match (deriv c s) cs)
         \<or> (\<exists>u v. cs = u @ v \<and> rx_match (deriv c r) u \<and> rx_match s v)"
    proof (cases u)
      case Nil
      with uv show ?thesis by auto
    next
      case (Cons x xs)
      with uv have "cs = xs @ v" "rx_match (deriv c r) xs" by auto
      with uv(3) show ?thesis by blast
    qed
  next
    assume "(nullable r \<and> rx_match (deriv c s) cs)
         \<or> (\<exists>u v. cs = u @ v \<and> rx_match (deriv c r) u \<and> rx_match s v)"
    then show "\<exists>u v. c # cs = u @ v \<and> rx_match r u \<and> rx_match s v"
    proof
      assume "nullable r \<and> rx_match (deriv c s) cs"
      then have "c # cs = [] @ (c # cs) \<and> rx_match r [] \<and> rx_match s (c # cs)" by simp
      then show ?thesis by blast
    next
      assume "\<exists>u v. cs = u @ v \<and> rx_match (deriv c r) u \<and> rx_match s v"
      then obtain u v where "cs = u @ v" "rx_match (deriv c r) u" "rx_match s v" by blast
      then have "c # cs = (c # u) @ v \<and> rx_match r (c # u) \<and> rx_match s v" by simp
      then show ?thesis by blast
    qed
  qed
  show ?case
    unfolding split using Cons.IH by (auto simp: rx_match_Alt)
qed

lemma rx_match_Star_Cls: "rx_match (Star (Cls P)) w \<longleftrightarrow> list_all P w"
proof (induction w)
  case Nil
  then show ?case by simp
next
  case (Cons c cs)
  have "rx_match (Star (Cls P)) (c # cs)
          \<longleftrightarrow> rx_match (Seq (if P c then One else Zero) (Star (Cls P))) cs"
    by simp
  also have "\<dots> \<longleftrightarrow> P c \<and> rx_match (Star (Cls P)) cs"
    by (auto simp: rx_match_Seq rx_match_One rx_match_Zero)
  finally show ?case using Cons.IH by simp
qed

lemma rx_match_plus_Cls: "rx_match (rx_plus (Cls P)) w \<longleftrightarrow> w \<noteq> [] \<and> list_all P w"
proof (cases w)
  case Nil
  then show ?thesis
    unfolding rx_plus_def rx_match_Seq rx_match_Cls rx_match_Star_Cls by simp
next
  case (Cons a list)
  have "(\<exists>u v. a # list = u @ v \<and> (\<exists>c. u = [c] \<and> P c) \<and> list_all P v)
          \<longleftrightarrow> P a \<and> list_all P list"
    by (auto intro: exI[of _ "[a]"])
  with Cons show ?thesis
    unfolding rx_plus_def rx_match_Seq rx_match_Cls rx_match_Star_Cls by simp
qed


lemma rx_match_char: "rx_match (rx_char c) w \<longleftrightarrow> w = [c]"
  by (auto simp: rx_char_def rx_match_Cls)

text \<open>\<open>/^r/.test(s)\<close> holds when \<open>s\<close> starts with a match of \<open>r\<close>, whatever follows.\<close>

lemma rx_test_prefix_iff:
  "rx_test_prefix r s \<longleftrightarrow> (\<exists>u v. s = u @ v \<and> rx_match r u)"
  by (simp add: rx_test_prefix_def rx_match_Seq rx_match_Star_Cls list_all_iff)

lemma rx_test_prefix_append: "rx_test_prefix r s \<Longrightarrow> rx_test_prefix r (s @ t)"
  unfolding rx_test_prefix_iff by (metis append.assoc)

lemma rx_scheme_iff:
  "rx_test_prefix rx_scheme s
     \<longleftrightarrow> (\<exists>w rest. s = w @ '':'' @ rest \<and> w \<noteq> [] \<and> list_all is_word_char w)"
proof
  assume "rx_test_prefix rx_scheme s"
  then obtain u v where "s = u @ v" "rx_match rx_scheme u"
    unfolding rx_test_prefix_iff by blast
  then obtain w where "s = (w @ '':'') @ v" "w \<noteq> []" "list_all is_word_char w"
    unfolding rx_scheme_def rx_word_def rx_match_Seq rx_match_plus_Cls rx_match_char
    by auto
  then have "s = w @ '':'' @ v \<and> w \<noteq> [] \<and> list_all is_word_char w" by simp
  then show "\<exists>w rest. s = w @ '':'' @ rest \<and> w \<noteq> [] \<and> list_all is_word_char w"
    by blast
next
  assume "\<exists>w rest. s = w @ '':'' @ rest \<and> w \<noteq> [] \<and> list_all is_word_char w"
  then obtain w rest where w: "s = w @ '':'' @ rest" "w \<noteq> []" "list_all is_word_char w"
    by blast
  then have "s = (w @ '':'') @ rest \<and> rx_match rx_scheme (w @ '':'')"
    unfolding rx_scheme_def rx_word_def rx_match_Seq rx_match_plus_Cls rx_match_char
    by auto
  then show "rx_test_prefix rx_scheme s"
    unfolding rx_test_prefix_iff by blast
qed

lemma rx_scheme_relative_iff:
  "rx_test_prefix (Seq rx_slash (Seq rx_slash rx_word)) s
     \<longleftrightarrow> (\<exists>c rest. s = ''//'' @ c # rest \<and> is_word_char c)"
proof
  assume "rx_test_prefix (Seq rx_slash (Seq rx_slash rx_word)) s"
  then obtain u v where "s = u @ v" "rx_match (Seq rx_slash (Seq rx_slash rx_word)) u"
    unfolding rx_test_prefix_iff by blast
  then show "\<exists>c rest. s = ''//'' @ c # rest \<and> is_word_char c"
    unfolding rx_slash_def rx_word_def rx_match_Seq rx_match_Cls rx_match_char
    by auto
next
  assume "\<exists>c rest. s = ''//'' @ c # rest \<and> is_word_char c"
  then obtain c rest where c: "s = ''//'' @ c # rest" "is_word_char c" by blast
  then have "s = (''//'' @ [c]) @ rest
             \<and> rx_match (Seq rx_slash (Seq rx_slash rx_word)) (''//'' @ [c])"
    by (simp add: rx_slash_def rx_word_def rx_char_def)
  then show "rx_test_prefix (Seq rx_slash (Seq rx_slash rx_word)) s"
    unfolding rx_test_prefix_iff by blast
qed

lemma rx_test_prefix_Alt:
  "rx_test_prefix (Alt r s) w \<longleftrightarrow> rx_test_prefix r w \<or> rx_test_prefix s w"
  unfolding rx_test_prefix_iff by (auto simp: rx_match_Alt)

lemmas rx_defs =
  rx_three_segments_def rx_segment_def rx_plus_def rx_opt_def rx_slash_def rx_not_slash_def
  rx_char_def rx_absolute_url_def rx_scheme_def rx_word_def rx_test_prefix_def is_word_char_def

subsection \<open>Argument parsing\<close>

lemma split_on_nonempty: "split_on c s \<noteq> []"
  by (induction s) (auto split: list.splits)

lemma parse_value_not_array: "parse_value h decode parts = Inr v \<Longrightarrow> \<not> isArray v"
  by (auto simp: parse_value_def js_JSON_parse_def isArray_def
           split: if_splits sum.splits option.splits jsval.splits)

text \<open>While the prototype is \<open>Object.prototype\<close>, a lookup ends at an own property or there.\<close>

lemma find_property_plain:
  "proto_array a = None \<Longrightarrow>
   find_property h a k =
     (case own a k of
        Some v \<Rightarrow> OwnProperty v
      | None \<Rightarrow>
          if k = ''__proto__'' then ProtoAccessor
          else if k \<in> set object_prototype_keys then Inherited (VFun k)
          else Absent)"
  by (simp add: find_property_def split: option.splits)

text \<open>Once the prototype is an array it stays one.\<close>

lemma push_property_proto:
  "push_property h a k v = Inr a' \<Longrightarrow> proto_array a' = None \<Longrightarrow> proto_array a = None"
  by (auto simp: push_property_def split: place.splits jsval.splits option.splits)

lemma wrap_property_proto:
  "proto_array (wrap_property h a k) = None \<Longrightarrow> proto_array a = None"
  by (auto simp: wrap_property_def split: place.splits)

lemma store_proto:
  "store h a k v = Inr a' \<Longrightarrow> proto_array a' = None \<Longrightarrow> proto_array a = None"
  by (auto simp: store_def split: if_splits dest: push_property_proto wrap_property_proto)

lemma loop_proto:
  "parseArguments_loop h decode rest a = Inr a' \<Longrightarrow> proto_array a' = None \<Longrightarrow>
   proto_array a = None"
proof (induction rest arbitrary: a)
  case Nil
  then show ?case by simp
next
  case (Cons arg rest)
  from Cons.prems(1) obtain v a1 where
    a1: "store h a (strip_dashes (hd (split_on CHR ''='' arg))) v = Inr a1"
    and rest: "parseArguments_loop h decode rest a1 = Inr a'"
    by (auto simp: Let_def split: sum.splits)
  from Cons.IH[OF rest Cons.prems(2)] have "proto_array a1 = None" .
  with a1 show ?case by (rule store_proto)
qed

lemma store_plain:
  assumes "proto_array a = None"
  shows "store h a k v =
     Inr (case own a k of
            Some (VArr ys) \<Rightarrow> a\<lparr>own := (own a)(k \<mapsto> VArr (ys @ [v]))\<rparr>
          | Some x \<Rightarrow> a\<lparr>own := (own a)(k \<mapsto> VArr [x, v])\<rparr>
          | None \<Rightarrow>
              if k = ''__proto__'' then a\<lparr>proto_array := Some [VObjectPrototype, v]\<rparr>
              else a\<lparr>own := (own a)(k \<mapsto>
                     (if k \<in> set object_prototype_keys then VArr [VFun k, v] else v))\<rparr>)"
proof (cases "own a k")
  case None
  show ?thesis
  proof (cases "k = ''__proto__''")
    case True
    with None assms have "own a ''__proto__'' = None" by simp
    with True assms show ?thesis
      by (simp add: store_def has_property_def get_property_def wrap_property_def
                    push_property_def isArray_def find_property_def)
  next
    case False
    with None assms show ?thesis
      by (simp add: store_def has_property_def get_property_def wrap_property_def
                    push_property_def isArray_def find_property_def)
  qed
next
  case (Some x)
  with assms show ?thesis
    by (cases x)
       (simp_all add: store_def has_property_def get_property_def wrap_property_def
                      push_property_def isArray_def find_property_def)
qed

lemma store_other_key:
  assumes "store h a k v = Inr a'" and "k' \<noteq> k" and "proto_array a = None"
  shows "own a' k' = own a k'"
  using assms(1,2) unfolding store_plain[OF assms(3)]
  by (auto split: option.splits jsval.splits)

lemma store_same_key:
  assumes "store h a k v = Inr a'" and "k \<notin> set object_prototype_keys"
    and "proto_array a = None"
    and "own a k = collected vs" and "list_all (\<lambda>x. \<not> isArray x) vs"
  shows "own a' k = collected (vs @ [v])"
proof -
  from assms(2) have np: "k \<noteq> ''__proto__''" by (auto simp: object_prototype_keys_def)
  show ?thesis
  proof (cases vs)
    case Nil
    with assms np show ?thesis
      unfolding store_plain[OF assms(3)] by (auto simp: collected_def)
  next
    case (Cons x xs)
    show ?thesis
    proof (cases xs)
      case Nil
      with Cons assms np show ?thesis
        unfolding store_plain[OF assms(3)]
        by (auto simp: collected_def isArray_def split: jsval.splits)
    next
      case (Cons y ys)
      with \<open>vs = x # xs\<close> assms np show ?thesis
        unfolding store_plain[OF assms(3)]
        by (auto simp: collected_def)
    qed
  qed
qed

lemma loop_collects:
  assumes "k \<notin> set object_prototype_keys"
  shows "parseArguments_loop h decode rest a = Inr a' \<Longrightarrow> proto_array a' = None \<Longrightarrow>
         own a k = collected vs \<Longrightarrow> list_all (\<lambda>x. \<not> isArray x) vs \<Longrightarrow>
         own a' k = collected (vs @ values_of h decode k rest)
         \<and> list_all (\<lambda>x. \<not> isArray x) (vs @ values_of h decode k rest)"
proof (induction rest arbitrary: a vs)
  case Nil
  then show ?case by simp
next
  case (Cons arg rest)
  from Cons.prems(1) obtain v a1 where
    v: "parse_value h decode (split_on CHR ''='' arg) = Inr v"
    and a1: "store h a (token_key arg) v = Inr a1"
    and rest: "parseArguments_loop h decode rest a1 = Inr a'"
    by (auto simp: Let_def token_key_def split: sum.splits)
  have p1: "proto_array a1 = None" using loop_proto[OF rest Cons.prems(2)] .
  have p0: "proto_array a = None" using store_proto[OF a1 p1] .
  have nv: "\<not> isArray v" using v by (rule parse_value_not_array)
  show ?case
  proof (cases "token_key arg = k")
    case True
    have "own a1 k = collected (vs @ [v])"
      using a1 True assms p0 Cons.prems(3,4) store_same_key by blast
    moreover have "list_all (\<lambda>x. \<not> isArray x) (vs @ [v])"
      using Cons.prems(4) nv by simp
    ultimately have "own a' k = collected ((vs @ [v]) @ values_of h decode k rest)
         \<and> list_all (\<lambda>x. \<not> isArray x) ((vs @ [v]) @ values_of h decode k rest)"
      using Cons.IH[OF rest Cons.prems(2)] by blast
    then show ?thesis using True v by simp
  next
    case False
    have "own a1 k = collected vs"
      using store_other_key[OF a1 _ p0, of k] False Cons.prems(3) by simp
    then show ?thesis using Cons.IH[OF rest Cons.prems(2) _ Cons.prems(4)] False by simp
  qed
qed

text \<open>
  For a key that \<open>Object.prototype\<close> does not hold, in a run that has left the
  prototype of \<open>args\<close> alone (no token has the key \<open>__proto__\<close>), the parsed
  arguments map the key to what its tokens collect: nothing, the one value (never an
  array), or the array of the values in the order of the tokens.
\<close>

lemma parseArguments_repeated_keys:
  assumes "parseArguments h rawArgs decode = Inr a" and "k \<notin> set object_prototype_keys"
    and "proto_array a = None"
  shows "own a k = collected (values_of h decode k rawArgs)
         \<and> list_all (\<lambda>x. \<not> isArray x) (values_of h decode k rawArgs)"
  using loop_collects[OF assms(2), of h decode rawArgs empty_args a "[]"] assms(1,3)
  by (simp add: parseArguments_def collected_def empty_args_def)

lemmas parse_defs =
  fromCommandLine_def fromQueryString_def parseArguments_def parse_value_def store_def
  has_property_def get_property_def find_property_def wrap_property_def push_property_def
  array_index_def is_digit_def decimal_value_def digit_value_def
  object_prototype_keys_def strip_dashes_def isArray_def empty_args_def

text \<open>
  A run that does not leave the prototype alone: the tokens \<open>--__proto__=a\<close> and
  \<open>--__proto__=b\<close> make the array of \<open>Object.prototype\<close>, \<open>a\<close> and \<open>b\<close> the
  prototype of \<open>args\<close>, and the key \<open>0\<close>, found in that array, gets an array too.
\<close>

lemma parseArguments_proto_example:
  "fromCommandLine h (Some [''--__proto__=a'', ''--__proto__=b'', ''--0=c''])
     = Inr \<lparr>own = [''0'' \<mapsto> VArr [VObjectPrototype, VStr ''c'']],
            proto_array = Some [VObjectPrototype, VStr ''a'', VStr ''b'']\<rparr>"
  by (simp add: parse_defs)

text \<open>
  C7. A key that occurs once is to map to a scalar. The key \<open>toString\<close> occurs once in
  the command line \<open>--toString=x\<close>, and the code maps it to an array of two elements:
  the function inherited from \<open>Object.prototype\<close>, which \<open>key in args\<close> found, and the
  value.
\<close>

theorem parseArguments_inherited_key_once:
  "fromCommandLine h (Some [''--toString=x''])
     = Inr \<lparr>own = [''toString'' \<mapsto> VArr [VFun ''toString'', VStr ''x'']], proto_array = None\<rparr>"
  by (simp add: parse_defs)

subsection \<open>getArguments\<close>

lemma normalize_list_arg_other:
  "name \<noteq> k \<Longrightarrow> own (normalize_list_arg h kw name) k = own kw k"
  by (simp add: normalize_list_arg_def Let_def)

lemma normalize_list_arg_proto:
  "proto_array (normalize_list_arg h kw name) = proto_array kw"
  by (simp add: normalize_list_arg_def Let_def)

lemma normalize_lists_excludeInstrumentation:
  "own (foldl (normalize_list_arg h) kw list_arg_names) ''excludeInstrumentation''
     = own kw ''excludeInstrumentation''"
  by (simp add: list_arg_names_def normalize_list_arg_other)

lemma normalize_lists_proto:
  "proto_array (foldl (normalize_list_arg h) kw list_arg_names) = proto_array kw"
  by (simp add: list_arg_names_def normalize_list_arg_proto)

text \<open>
  What \<open>kwArgs.excludeInstrumentation\<close> reads: the own property, and when there is
  none, nothing or an inherited function, never a string.
\<close>

lemma get_excludeInstrumentation:
  "get_property h kw ''excludeInstrumentation''
     = (case own kw ''excludeInstrumentation'' of
          Some v \<Rightarrow> v
        | None \<Rightarrow>
            if proto_array kw \<noteq> None \<and> ''excludeInstrumentation'' \<in> set (array_prototype_keys h)
            then VFun ''Array.prototype.excludeInstrumentation''
            else VUndefined)"
  by (simp add: get_property_def find_property_def object_prototype_keys_def array_index_def
                is_digit_def split: option.splits)

text \<open>
  C10. Let \<open>a\<close> be the arguments as parsed. If \<open>excludeInstrumentation\<close> is the string
  \<open>true\<close>, \<open>getArguments\<close> returns it as the boolean \<open>true\<close>. If it is another string
  \<open>s\<close>, the result holds the regular expression compiled from \<open>s\<close> with no flags (and
  \<open>getArguments\<close> throws the compiler's \<open>SyntaxError\<close> when \<open>s\<close> does not compile). If
  it is no string, or absent, it is returned as it is.
\<close>

theorem getArguments_excludeInstrumentation:
  assumes "rawArguments h = Inr a"
  shows "(own a ''excludeInstrumentation'' = Some (VStr ''true'') \<longrightarrow>
            (\<exists>kw. getArguments h = Inr kw
                  \<and> own kw ''excludeInstrumentation'' = Some (VBool True)))
       \<and> (\<forall>s. own a ''excludeInstrumentation'' = Some (VStr s) \<and> s \<noteq> ''true'' \<longrightarrow>
            (if regexp_compiles h s []
             then (\<exists>kw. getArguments h = Inr kw
                        \<and> own kw ''excludeInstrumentation'' = Some (VRegExp s []))
             else getArguments h = Inl SyntaxError))
       \<and> ((\<forall>s. own a ''excludeInstrumentation'' \<noteq> Some (VStr s)) \<longrightarrow>
            (\<exists>kw. getArguments h = Inr kw
                  \<and> own kw ''excludeInstrumentation'' = own a ''excludeInstrumentation''))"
  using assms
  by (auto simp: getArguments_def normalize_excludeInstrumentation_def Let_def
                 get_excludeInstrumentation normalize_lists_excludeInstrumentation
                 normalize_lists_proto js_new_RegExp_def
           split: option.splits jsval.splits)

lemmas example_host_defs = example_node_def example_browser_def rawArguments_def

theorem getArguments_excludeInstrumentation_witness:
  "(\<exists>kw. getArguments (example_node\<lparr>argv := [''node'', ''client.js'', ''--excludeInstrumentation=true'']\<rparr>) = Inr kw
         \<and> own kw ''excludeInstrumentation'' = Some (VBool True))
 \<and> (\<exists>kw. getArguments (example_node\<lparr>argv := [''node'', ''client.js'', ''excludeInstrumentation=tests'']\<rparr>) = Inr kw
         \<and> own kw ''excludeInstrumentation'' = Some (VRegExp ''tests'' []))
 \<and> (\<exists>kw. getArguments (example_node\<lparr>argv := [''node'', ''client.js'', ''--excludeInstrumentation'']\<rparr>) = Inr kw
         \<and> own kw ''excludeInstrumentation'' = Some (VBool True))
 \<and> (\<exists>kw. getArguments example_node = Inr kw \<and> own kw ''excludeInstrumentation'' = None)"
proof -
  have r1: "rawArguments (example_node\<lparr>argv := [''node'', ''client.js'', ''--excludeInstrumentation=true'']\<rparr>)
              = Inr \<lparr>own = [''excludeInstrumentation'' \<mapsto> VStr ''true''], proto_array = None\<rparr>"
    by (simp add: example_host_defs parse_defs)
  have r2: "rawArguments (example_node\<lparr>argv := [''node'', ''client.js'', ''excludeInstrumentation=tests'']\<rparr>)
              = Inr \<lparr>own = [''excludeInstrumentation'' \<mapsto> VStr ''tests''], proto_array = None\<rparr>"
    by (simp add: example_host_defs parse_defs)
  have r3: "rawArguments (example_node\<lparr>argv := [''node'', ''client.js'', ''--excludeInstrumentation'']\<rparr>)
              = Inr \<lparr>own = [''excludeInstrumentation'' \<mapsto> VBool True], proto_array = None\<rparr>"
    by (simp add: example_host_defs parse_defs)
  have r4: "rawArguments example_node
              = Inr \<lparr>own = [''config'' \<mapsto> VStr ''tests/intern''], proto_array = None\<rparr>"
    by (simp add: example_host_defs parse_defs)
  have c: "regexp_compiles h ''tests'' []" for h
    by (simp add: regexp_compiles_def is_word_char_def)
  show ?thesis
    using getArguments_excludeInstrumentation[OF r1] getArguments_excludeInstrumentation[OF r2]
      getArguments_excludeInstrumentation[OF r3] getArguments_excludeInstrumentation[OF r4] c
    by simp
qed

subsection \<open>Numbers\<close>






lemma js_Number_NaN_iff: "js_Number h s = NaN \<longleftrightarrow> \<not> is_numeric_string h s"
  by (simp add: js_Number_def split: option.splits)







subsection \<open>getConfig\<close>

lemma deprecated_options_fields:
  "grep (fst (deprecated_options c ev)) = grep c"
  "proxyPort (fst (deprecated_options c ev)) = proxyPort c"
  "proxyUrl (fst (deprecated_options c ev)) = proxyUrl c"
  "basePath (fst (deprecated_options c ev)) = basePath c"
  "initialBaseUrl (fst (deprecated_options c ev)) = initialBaseUrl c"
  "loaderOptions (fst (deprecated_options c ev)) = Obj (given_loaderOptions c)"
  by (auto simp: deprecated_options_def given_loaderOptions_def Let_def split: js_field.splits)

lemma resolve_basePath_fields:
  "grep (resolve_basePath h c) = grep c"
  "proxyPort (resolve_basePath h c) = proxyPort c"
  "proxyUrl (resolve_basePath h c) = proxyUrl c"
  "loaderOptions (resolve_basePath h c) = loaderOptions c"
  by (simp_all add: resolve_basePath_def Let_def)

lemma resolve_instrumenterOptions_fields:
  "basePath (resolve_instrumenterOptions c) = basePath c"
  by (simp add: resolve_instrumenterOptions_def Let_def)

lemma ensure_trailing_slash_last:
  "ensure_trailing_slash s \<noteq> [] \<and> last (ensure_trailing_slash s) = CHR ''/''"
  by (simp add: ensure_trailing_slash_def)

lemma resolve_basePath_slash:
  "host_node h \<or> host_browser h \<Longrightarrow>
   \<exists>bp. basePath (resolve_basePath h c) = Some bp \<and> bp \<noteq> [] \<and> last bp = CHR ''/''"
  by (auto simp: resolve_basePath_def Let_def ensure_trailing_slash_last)

text \<open>What a successful resolution is made of.\<close>

lemma getConfig_then_Inr:
  assumes "fst (getConfig_then h m args merged ev) = Inr c"
  shows "\<exists>lo g port.
           resolve_baseUrl h (basePath (resolve_basePath h (fst (deprecated_options merged ev))))
             (given_loaderOptions merged) = Inr lo
         \<and> compile_grep h (grep merged) = Inr g
         \<and> resolve_proxyPort h (proxyPort merged) = Inr port
         \<and> loaderOptions c = Obj lo \<and> grep c = g \<and> proxyPort c = port
         \<and> proxyUrl c = resolve_proxyUrl h port (proxyUrl merged)
         \<and> basePath c = basePath (resolve_basePath h (fst (deprecated_options merged ev)))"
proof -
  obtain a b where ab: "deprecated_options merged ev = (a, b)"
    by (cases "deprecated_options merged ev")
  have a: "grep a = grep merged" "proxyPort a = proxyPort merged" "proxyUrl a = proxyUrl merged"
    "loaderOptions a = Obj (given_loaderOptions merged)"
    using deprecated_options_fields[of merged ev] ab by simp_all
  show ?thesis
    using assms ab a
    unfolding getConfig_then_def Let_def
    by (auto simp: resolve_basePath_fields resolve_instrumenterOptions_fields
             split: option.splits sum.splits)
qed

lemma getConfig_Inr:
  "fst (getConfig h m dflt args merged ev) = Inr c \<Longrightarrow>
   fst (getConfig_then h m args merged ev) = Inr c"
  by (auto simp: getConfig_def split: if_splits option.splits)







lemmas getConfig_defs =
  getConfig_def getConfig_then_def deprecated_options_def resolve_basePath_def
  resolve_baseUrl_def isAbsoluteBaseUrl_def compile_grep_def resolve_instrumenterOptions_def
  resolve_proxyPort_def resolve_proxyUrl_def js_new_RegExp_def regexp_compiles_def
  is_nullish_def truthy_def get_property_def find_property_def obj_get_def
  ensure_trailing_slash_def module_url_defined_def
  empty_loader_options_def example_node_def example_browser_def example_modules_def
  example_config_def example_args_def example_defaults_def empty_args_def Let_def

lemma example_reaches_then:
  "getConfig example_node example_modules example_defaults example_args c0 ev
     = getConfig_then example_node example_modules example_args c0 ev"
  "getConfig example_browser example_modules example_defaults example_args c0 ev
     = getConfig_then example_browser example_modules example_args c0 ev"
  by (simp_all add: getConfig_def truthy_def module_url_defined_def get_property_def
                    find_property_def example_args_def example_defaults_def example_modules_def
                    empty_args_def empty_loader_options_def)

lemma example_facts:
  "get_property example_node example_args ''config'' = VStr ''tests/intern''"
  "get_property example_browser example_args ''config'' = VStr ''tests/intern''"
  "\<exists>d b. example_defaults = Some d \<and> baseUrl d = Some b"
  "assertSafeModuleId example_modules v = None"
  "host_node example_node" "host_browser example_browser" "\<not> host_node example_browser"
  by (simp_all add: get_property_def find_property_def example_args_def example_defaults_def
                    example_modules_def empty_args_def empty_loader_options_def
                    example_node_def example_browser_def)


lemma example_resolves:
  "is_nullish (grep c0) \<Longrightarrow> loader c0 = Undefined \<Longrightarrow> loaderOptions c0 = Undefined \<Longrightarrow>
   useLoader c0 = Undefined \<Longrightarrow> \<forall>s. proxyPort c0 = VStr s \<longrightarrow> is_numeric_string example_node s \<Longrightarrow>
   \<exists>c. fst (getConfig example_node example_modules example_defaults example_args c0 []) = Inr c"
  unfolding example_reaches_then
  by (auto simp: getConfig_then_def deprecated_options_def resolve_basePath_def
                 resolve_baseUrl_def isAbsoluteBaseUrl_def compile_grep_def
                 resolve_instrumenterOptions_def resolve_proxyPort_def resolve_proxyUrl_def
                 js_new_RegExp_def regexp_compiles_def is_nullish_def
                 empty_loader_options_def example_node_def example_modules_def Let_def
                 js_Number_NaN_iff
           split: jsval.splits)



lemma occurs_in_empty: "occurs_in [] s"
  by (induction s) simp_all

lemma js_regexp_test_empty: "js_regexp_test h (VRegExp [] f) s"
  by (simp add: js_regexp_test_def occurs_in_empty)

lemma rev_takeWhile_suffix:
  assumes "c \<in> set xs"
  shows "xs = take (length xs - length (takeWhile (\<lambda>x. x \<noteq> c) (rev xs)) - 1) xs @ c #
              rev (takeWhile (\<lambda>x. x \<noteq> c) (rev xs))"
proof -
  from assms have "c \<in> set (rev xs)" by simp
  then obtain ys zs where s: "rev xs = ys @ c # zs" and n: "c \<notin> set ys"
    by (meson split_list_first)
  from n have "takeWhile (\<lambda>x. x \<noteq> c) (ys @ c # zs) = ys"
    by (induction ys) auto
  with s have t: "takeWhile (\<lambda>x. x \<noteq> c) (rev xs) = ys" by simp
  from s have "rev (rev xs) = rev (ys @ c # zs)" by simp
  then have x: "xs = rev zs @ c # rev ys" by simp
  then have "length xs - length ys - 1 = length zs" by simp
  with t x show ?thesis by simp
qed

text \<open>
  \<open>grep_literal\<close> is the match of \<open>/^\/(.*)\/([gim]*)$/\<close>: it gives a pattern and
  flags exactly for the strings that are a slash, a pattern without line terminator,
  a slash and flags among \<open>g\<close>, \<open>i\<close>, \<open>m\<close>, and those are what it gives.
\<close>

lemma if_Some_eq: "(if C then Some x else None) = Some y \<Longrightarrow> C \<and> x = y"
  by (cases C) auto

lemma grep_literal_unfold:
  "CHR ''/'' \<in> set rest \<Longrightarrow> grep_literal (CHR ''/'' # rest) =
     (if list_all (\<lambda>x. x \<in> set ''gim'') (rev (takeWhile (\<lambda>x. x \<noteq> CHR ''/'') (rev rest)))
         \<and> list_all (\<lambda>x. x \<notin> set line_terminators)
              (take (length rest - length (rev (takeWhile (\<lambda>x. x \<noteq> CHR ''/'') (rev rest))) - 1) rest)
      then Some (take (length rest - length (rev (takeWhile (\<lambda>x. x \<noteq> CHR ''/'') (rev rest))) - 1) rest,
                 rev (takeWhile (\<lambda>x. x \<noteq> CHR ''/'') (rev rest)))
      else None)"
  unfolding grep_literal_def Let_def by simp

lemma grep_literal_shape:
  "grep_literal s = Some (p, f) \<Longrightarrow> \<exists>rest. s = CHR ''/'' # rest \<and> CHR ''/'' \<in> set rest"
  unfolding grep_literal_def Let_def by (cases s) (simp_all split: if_splits)

lemma grep_literal_Some:
  assumes "grep_literal s = Some (p, f)"
  shows "s = ''/'' @ p @ ''/'' @ f \<and> list_all (\<lambda>x. x \<in> set ''gim'') f
         \<and> list_all (\<lambda>x. x \<notin> set line_terminators) p"
proof -
  from grep_literal_shape[OF assms] obtain rest where
    s: "s = CHR ''/'' # rest" and m: "CHR ''/'' \<in> set rest" by blast
  let ?f = "rev (takeWhile (\<lambda>x. x \<noteq> CHR ''/'') (rev rest))"
  let ?p = "take (length rest - length ?f - 1) rest"
  from assms s have "grep_literal (CHR ''/'' # rest) = Some (p, f)" by simp
  then have "(if list_all (\<lambda>x. x \<in> set ''gim'') ?f \<and> list_all (\<lambda>x. x \<notin> set line_terminators) ?p
              then Some (?p, ?f) else None) = Some (p, f)"
    by (simp only: grep_literal_unfold[OF m])
  then have ok: "list_all (\<lambda>x. x \<in> set ''gim'') ?f \<and> list_all (\<lambda>x. x \<notin> set line_terminators) ?p"
    and pf: "(?p, ?f) = (p, f)"
    by (rule if_Some_eq[THEN conjunct1], rule if_Some_eq[THEN conjunct2])
  from rev_takeWhile_suffix[OF m] have "rest = ?p @ CHR ''/'' # ?f" by simp
  moreover from pf have "?p = p" "?f = f" by blast+
  ultimately have "rest = p @ CHR ''/'' # f"
    and "list_all (\<lambda>x. x \<in> set ''gim'') f" "list_all (\<lambda>x. x \<notin> set line_terminators) p"
    using ok by metis+
  then show ?thesis using s by simp
qed

lemma takeWhile_until:
  "c \<notin> set ys \<Longrightarrow> takeWhile (\<lambda>x. x \<noteq> c) (ys @ c # zs) = ys"
  by (induction ys) auto

lemma grep_literal_complete:
  assumes "list_all (\<lambda>x. x \<in> set ''gim'') f" and "list_all (\<lambda>x. x \<notin> set line_terminators) p"
  shows "grep_literal (''/'' @ p @ ''/'' @ f) = Some (p, f)"
proof -
  let ?rest = "p @ CHR ''/'' # f"
  have "CHR ''/'' \<notin> set f"
  proof
    assume "CHR ''/'' \<in> set f"
    with assms(1) have "CHR ''/'' \<in> set ''gim''" unfolding list_all_iff by blast
    then show False by simp
  qed
  then have "CHR ''/'' \<notin> set (rev f)" by simp
  then have "takeWhile (\<lambda>x. x \<noteq> CHR ''/'') (rev f @ CHR ''/'' # rev p) = rev f"
    by (rule takeWhile_until)
  then have t: "rev (takeWhile (\<lambda>x. x \<noteq> CHR ''/'') (rev ?rest)) = f" by simp
  have l: "take (length ?rest - length f - 1) ?rest = p" by simp
  have m: "CHR ''/'' \<in> set ?rest" by simp
  have "grep_literal (CHR ''/'' # ?rest) = Some (p, f)"
    unfolding grep_literal_unfold[OF m] t l using assms by (simp only: simp_thms if_True)
  then show ?thesis by simp
qed

lemma js_ToString_VStr: "js_ToString h (VStr s) = s"
  by (simp add: js_ToString_def)

lemma grep_literal_Nil: "grep_literal [] = None"
  by (simp add: grep_literal_def)

lemma compile_grep_cases:
  assumes "compile_grep h g = Inr r"
  shows "(is_nullish g \<longrightarrow> r = VRegExp [] [])
       \<and> (g = VStr [] \<longrightarrow> r = VRegExp [] ''i'')
       \<and> (\<forall>s p f. g = VStr s \<and> grep_literal s = Some (p, f) \<longrightarrow> r = VRegExp p f)
       \<and> (\<forall>s. g = VStr s \<and> grep_literal s = None \<longrightarrow> r = VRegExp s ''i'')"
proof (intro conjI allI impI)
  assume "is_nullish g"
  with assms show "r = VRegExp [] []"
    by (simp add: compile_grep_def js_new_RegExp_def split: if_splits)
next
  assume "g = VStr []"
  with assms show "r = VRegExp [] ''i''"
    by (simp add: compile_grep_def js_new_RegExp_def js_ToString_VStr grep_literal_Nil
                  is_nullish_def split: if_splits)
next
  fix s p f assume "g = VStr s \<and> grep_literal s = Some (p, f)"
  with assms show "r = VRegExp p f"
    by (simp add: compile_grep_def js_new_RegExp_def js_ToString_VStr is_nullish_def
             split: if_splits)
next
  fix s assume "g = VStr s \<and> grep_literal s = None"
  with assms show "r = VRegExp s ''i''"
    by (simp add: compile_grep_def js_new_RegExp_def js_ToString_VStr is_nullish_def
             split: if_splits)
qed

text \<open>
  C9. When \<open>getConfig\<close> resolves a configuration, the compiled \<open>grep\<close> is: the empty
  pattern, which matches every string, when \<open>grep\<close> is unset or the empty string; the
  pattern and flags of the literal when \<open>grep\<close> has the form \<open>/pattern/flags\<close>
  (\<open>foo\<close> and \<open>i\<close> for \<open>/foo/i\<close>); the whole string with the flag \<open>i\<close> otherwise
  (\<open>foo\<close> is of that kind).
\<close>

theorem getConfig_grep:
  assumes "fst (getConfig h m dflt args merged ev) = Inr c"
  shows "(is_nullish (grep merged) \<longrightarrow> grep c = VRegExp [] [])
       \<and> (grep merged = VStr [] \<longrightarrow> grep c = VRegExp [] ''i'')
       \<and> (is_nullish (grep merged) \<or> grep merged = VStr [] \<longrightarrow>
            (\<forall>s. js_regexp_test h (grep c) s))
       \<and> (\<forall>s p f. grep merged = VStr s \<and> grep_literal s = Some (p, f) \<longrightarrow>
            grep c = VRegExp p f)
       \<and> (\<forall>s. grep merged = VStr s \<and> grep_literal s = None \<longrightarrow> grep c = VRegExp s ''i'')
       \<and> grep_literal ''/foo/i'' = Some (''foo'', ''i'') \<and> grep_literal ''foo'' = None"
proof -
  from getConfig_then_Inr[OF getConfig_Inr[OF assms]]
  have g: "compile_grep h (grep merged) = Inr (grep c)" by auto
  have l: "grep_literal ''/foo/i'' = Some (''foo'', ''i'')" "grep_literal ''foo'' = None"
    by (simp_all add: grep_literal_def line_terminators_def)
  show ?thesis
    using compile_grep_cases[OF g] l by (auto simp: js_regexp_test_empty)
qed

theorem getConfig_grep_witness:
  "(\<exists>c. fst (getConfig example_node example_modules example_defaults example_args
              (example_config\<lparr>grep := VStr ''/foo/i''\<rparr>) []) = Inr c
        \<and> grep c = VRegExp ''foo'' ''i'')
 \<and> (\<exists>c. fst (getConfig example_node example_modules example_defaults example_args
              (example_config\<lparr>grep := VStr ''foo''\<rparr>) []) = Inr c
        \<and> grep c = VRegExp ''foo'' ''i'')
 \<and> (\<exists>c. fst (getConfig example_node example_modules example_defaults example_args
              example_config []) = Inr c
        \<and> grep c = VRegExp [] [] \<and> js_regexp_test example_node (grep c) ''any test name'')"
proof (intro conjI)
  let ?c1 = "example_config\<lparr>grep := VStr ''/foo/i''\<rparr>"
  have "\<exists>c. fst (getConfig example_node example_modules example_defaults example_args ?c1 []) = Inr c"
    by (simp add: getConfig_defs js_ToString_def grep_literal_def line_terminators_def
                  is_word_char_def)
  then obtain c where c: "fst (getConfig example_node example_modules example_defaults example_args ?c1 []) = Inr c" ..
  from getConfig_grep[OF c] have "grep c = VRegExp ''foo'' ''i''"
    by (simp add: example_config_def)
  with c show "\<exists>c. fst (getConfig example_node example_modules example_defaults example_args ?c1 []) = Inr c
        \<and> grep c = VRegExp ''foo'' ''i''" by blast
next
  let ?c2 = "example_config\<lparr>grep := VStr ''foo''\<rparr>"
  have "\<exists>c. fst (getConfig example_node example_modules example_defaults example_args ?c2 []) = Inr c"
    by (simp add: getConfig_defs js_ToString_def grep_literal_def line_terminators_def
                  is_word_char_def)
  then obtain c where c: "fst (getConfig example_node example_modules example_defaults example_args ?c2 []) = Inr c" ..
  from getConfig_grep[OF c] have "grep c = VRegExp ''foo'' ''i''"
    by (simp add: example_config_def)
  with c show "\<exists>c. fst (getConfig example_node example_modules example_defaults example_args ?c2 []) = Inr c
        \<and> grep c = VRegExp ''foo'' ''i''" by blast
next
  obtain c where c: "fst (getConfig example_node example_modules example_defaults example_args example_config []) = Inr c"
    using example_resolves[of example_config] by (auto simp: example_config_def is_nullish_def)
  from getConfig_grep[OF c]
  have "grep c = VRegExp [] [] \<and> (\<forall>s. js_regexp_test example_node (grep c) s)"
    by (auto simp: example_config_def is_nullish_def)
  then have "grep c = VRegExp [] [] \<and> js_regexp_test example_node (grep c) ''any test name''"
    by blast
  with c show "\<exists>c. fst (getConfig example_node example_modules example_defaults example_args example_config []) = Inr c
        \<and> grep c = VRegExp [] [] \<and> js_regexp_test example_node (grep c) ''any test name''"
    by blast
qed

lemma resolve_baseUrl_cases:
  assumes "resolve_baseUrl h bp lo = Inr lo'"
  shows "case baseUrl lo of
           None \<Rightarrow> baseUrl lo' = bp
         | Some u \<Rightarrow>
             if u = [] then baseUrl lo' = bp
             else if is_absolute_on h u then baseUrl lo' = Some u
             else (host_node h \<or> host_browser h)
                  \<and> baseUrl lo' = Some (normalizePath h ((case bp of Some b \<Rightarrow> b | None \<Rightarrow> ''undefined'') @ u))"
  using assms
  by (auto simp: resolve_baseUrl_def is_absolute_on_def isAbsoluteBaseUrl_def
           split: option.splits if_splits)

text \<open>The host's test for an absolute base URL, host by host.\<close>

lemma is_absolute_on_browser:
  assumes "\<not> host_node h" and "host_browser h"
  shows "is_absolute_on h u
     \<longleftrightarrow> (\<exists>w rest. u = w @ '':'' @ rest \<and> w \<noteq> [] \<and> list_all is_word_char w)
         \<or> (\<exists>c rest. u = ''//'' @ c # rest \<and> is_word_char c)"
  using assms
  by (simp add: is_absolute_on_def isAbsoluteBaseUrl_def rx_absolute_url_def rx_test_prefix_Alt
                rx_scheme_iff rx_scheme_relative_iff)

lemma is_absolute_on_node:
  assumes "host_node h"
  shows "is_absolute_on h u
     \<longleftrightarrow> (case path_isAbsolute h of
            Some f \<Rightarrow> f u
          | None \<Rightarrow>
              if path_sep h = ''/'' then take 1 u = ''/''
              else (\<exists>w rest. u = w @ '':'' @ rest \<and> w \<noteq> [] \<and> list_all is_word_char w))"
  using assms
  by (simp add: is_absolute_on_def isAbsoluteBaseUrl_def rx_scheme_iff split: option.splits)

text \<open>
  What passes the test keeps passing it when something is appended, if that is so of
  \<open>path.isAbsolute\<close> where the host has it.
\<close>

lemma is_absolute_on_append:
  assumes "\<forall>f. host_node h \<and> path_isAbsolute h = Some f \<longrightarrow> (\<forall>p t. f p \<longrightarrow> f (p @ t))"
    and "is_absolute_on h p"
  shows "is_absolute_on h (p @ t)"
proof (cases "host_node h")
  case True
  show ?thesis
  proof (cases "path_isAbsolute h")
    case None
    show ?thesis
    proof (cases "path_sep h = ''/''")
      case sep: True
      with None \<open>host_node h\<close> assms(2) show ?thesis
        by (cases p) (simp_all add: is_absolute_on_def isAbsoluteBaseUrl_def)
    next
      case sep: False
      with None \<open>host_node h\<close> assms(2) have "rx_test_prefix rx_scheme p"
        by (simp add: is_absolute_on_def isAbsoluteBaseUrl_def)
      then have "rx_test_prefix rx_scheme (p @ t)" by (rule rx_test_prefix_append)
      with sep None \<open>host_node h\<close> show ?thesis
        by (simp add: is_absolute_on_def isAbsoluteBaseUrl_def)
    qed
  next
    case (Some f)
    with True assms show ?thesis
      by (simp add: is_absolute_on_def isAbsoluteBaseUrl_def)
  qed
next
  case False
  with assms(2) have b: "host_browser h" and "rx_test_prefix rx_absolute_url p"
    by (auto simp: is_absolute_on_def isAbsoluteBaseUrl_def split: if_splits)
  then have "rx_test_prefix rx_absolute_url (p @ t)" using rx_test_prefix_append by blast
  with False b show ?thesis
    by (simp add: is_absolute_on_def isAbsoluteBaseUrl_def)
qed

lemma is_absolute_on_slash:
  assumes "\<forall>f. host_node h \<and> path_isAbsolute h = Some f \<longrightarrow> (\<forall>p t. f p \<longrightarrow> f (p @ t))"
    and "is_absolute_on h p"
  shows "is_absolute_on h (ensure_trailing_slash p)"
  using is_absolute_on_append[OF assms] assms(2) by (simp add: ensure_trailing_slash_def)

text \<open>
  C3, as the code has it. When \<open>getConfig\<close> resolves a configuration, the base URL of
  the loader options is: the resolved base path when it was unset (or empty); the
  given value, unchanged, when that passes the host's test for an absolute URL;
  otherwise \<open>util.normalizePath\<close> of the resolved base path, which ends with a slash,
  followed by the given value. It passes the host's test when the resolved base path
  does, and that does on Node.js when the configured base path (the working directory
  when there is none) does, both provided that what passes the test still passes it
  after \<open>util.normalizePath\<close>, and after something is appended when the test is
  \<open>path.isAbsolute\<close>. The host's test is: on a browser, a scheme (word characters and
  a colon) or two slashes and a word character at the start; on Node.js
  \<open>path.isAbsolute\<close>, and without it a leading slash where the separator is the slash
  and a scheme elsewhere.
\<close>

theorem getConfig_baseUrl:
  assumes "fst (getConfig h m dflt args merged ev) = Inr c"
  shows "(\<exists>lo. loaderOptions c = Obj lo
           \<and> (case baseUrl (given_loaderOptions merged) of
                None \<Rightarrow> baseUrl lo = basePath c
              | Some u \<Rightarrow>
                  if u = [] then baseUrl lo = basePath c
                  else if is_absolute_on h u then baseUrl lo = Some u
                  else (\<exists>bp. basePath c = Some bp \<and> bp \<noteq> [] \<and> last bp = CHR ''/''
                            \<and> baseUrl lo = Some (normalizePath h (bp @ u))))
           \<and> ((\<exists>bp. basePath c = Some bp \<and> is_absolute_on h bp)
               \<and> (\<forall>p. is_absolute_on h p \<longrightarrow> is_absolute_on h (normalizePath h p))
               \<and> (\<forall>f. host_node h \<and> path_isAbsolute h = Some f \<longrightarrow> (\<forall>p t. f p \<longrightarrow> f (p @ t)))
               \<longrightarrow> (\<exists>u. baseUrl lo = Some u \<and> is_absolute_on h u)))
       \<and> (host_node h
           \<and> is_absolute_on h (case basePath merged of None \<Rightarrow> cwd h | Some p \<Rightarrow> p)
           \<and> (\<forall>p. is_absolute_on h p \<longrightarrow> is_absolute_on h (normalizePath h p))
           \<and> (\<forall>f. host_node h \<and> path_isAbsolute h = Some f \<longrightarrow> (\<forall>p t. f p \<longrightarrow> f (p @ t)))
           \<longrightarrow> (\<exists>bp. basePath c = Some bp \<and> is_absolute_on h bp))
       \<and> (\<not> host_node h \<and> host_browser h \<longrightarrow>
            (\<forall>u. is_absolute_on h u
               \<longleftrightarrow> (\<exists>w rest. u = w @ '':'' @ rest \<and> w \<noteq> [] \<and> list_all is_word_char w)
                   \<or> (\<exists>x rest. u = ''//'' @ x # rest \<and> is_word_char x)))
       \<and> (host_node h \<longrightarrow>
            (\<forall>u. is_absolute_on h u
               \<longleftrightarrow> (case path_isAbsolute h of
                      Some f \<Rightarrow> f u
                    | None \<Rightarrow>
                        if path_sep h = ''/'' then take 1 u = ''/''
                        else (\<exists>w rest. u = w @ '':'' @ rest \<and> w \<noteq> []
                                       \<and> list_all is_word_char w))))"
proof (intro conjI)
  let ?c1 = "resolve_basePath h (fst (deprecated_options merged ev))"
  from getConfig_then_Inr[OF getConfig_Inr[OF assms]] obtain lo where
    r: "resolve_baseUrl h (basePath ?c1) (given_loaderOptions merged) = Inr lo"
    and lo: "loaderOptions c = Obj lo" and bp: "basePath c = basePath ?c1"
    by blast
  have shape: "case baseUrl (given_loaderOptions merged) of
                None \<Rightarrow> baseUrl lo = basePath c
              | Some u \<Rightarrow>
                  if u = [] then baseUrl lo = basePath c
                  else if is_absolute_on h u then baseUrl lo = Some u
                  else (\<exists>bp. basePath c = Some bp \<and> bp \<noteq> [] \<and> last bp = CHR ''/''
                            \<and> baseUrl lo = Some (normalizePath h (bp @ u)))"
  proof (cases "baseUrl (given_loaderOptions merged)")
    case None
    with resolve_baseUrl_cases[OF r] bp show ?thesis by simp
  next
    case (Some u)
    show ?thesis
    proof (cases "u = [] \<or> is_absolute_on h u")
      case True
      with resolve_baseUrl_cases[OF r] Some bp show ?thesis by auto
    next
      case False
      with resolve_baseUrl_cases[OF r] Some
      have hst: "host_node h \<or> host_browser h"
        and b: "baseUrl lo = Some (normalizePath h ((case basePath ?c1 of Some b \<Rightarrow> b | None \<Rightarrow> ''undefined'') @ u))"
        by auto
      from resolve_basePath_slash[OF hst, of "fst (deprecated_options merged ev)"]
      obtain p where p: "basePath ?c1 = Some p" "p \<noteq> []" "last p = CHR ''/''" by blast
      with b bp Some False show ?thesis by auto
    qed
  qed
  have absolute: "(\<exists>bp. basePath c = Some bp \<and> is_absolute_on h bp)
               \<and> (\<forall>p. is_absolute_on h p \<longrightarrow> is_absolute_on h (normalizePath h p))
               \<and> (\<forall>f. host_node h \<and> path_isAbsolute h = Some f \<longrightarrow> (\<forall>p t. f p \<longrightarrow> f (p @ t)))
               \<longrightarrow> (\<exists>u. baseUrl lo = Some u \<and> is_absolute_on h u)"
  proof
    assume a: "(\<exists>bp. basePath c = Some bp \<and> is_absolute_on h bp)
               \<and> (\<forall>p. is_absolute_on h p \<longrightarrow> is_absolute_on h (normalizePath h p))
               \<and> (\<forall>f. host_node h \<and> path_isAbsolute h = Some f \<longrightarrow> (\<forall>p t. f p \<longrightarrow> f (p @ t)))"
    then obtain b where b: "basePath c = Some b" "is_absolute_on h b" by blast
    from a have n: "\<And>p. is_absolute_on h p \<Longrightarrow> is_absolute_on h (normalizePath h p)"
      and ap: "\<forall>f. host_node h \<and> path_isAbsolute h = Some f \<longrightarrow> (\<forall>p t. f p \<longrightarrow> f (p @ t))"
      by blast+
    show "\<exists>u. baseUrl lo = Some u \<and> is_absolute_on h u"
    proof (cases "baseUrl (given_loaderOptions merged)")
      case None
      with shape b show ?thesis by simp
    next
      case (Some u)
      show ?thesis
      proof (cases "u = []")
        case True
        with shape Some b show ?thesis by simp
      next
        case False
        show ?thesis
        proof (cases "is_absolute_on h u")
          case True
          with shape Some False show ?thesis by simp
        next
          case na: False
          with shape Some False b have "baseUrl lo = Some (normalizePath h (b @ u))" by simp
          moreover have "is_absolute_on h (normalizePath h (b @ u))"
            using n is_absolute_on_append[OF ap b(2)] by blast
          ultimately show ?thesis by blast
        qed
      qed
    qed
  qed
  from lo shape absolute
  show "\<exists>lo. loaderOptions c = Obj lo
           \<and> (case baseUrl (given_loaderOptions merged) of
                None \<Rightarrow> baseUrl lo = basePath c
              | Some u \<Rightarrow>
                  if u = [] then baseUrl lo = basePath c
                  else if is_absolute_on h u then baseUrl lo = Some u
                  else (\<exists>bp. basePath c = Some bp \<and> bp \<noteq> [] \<and> last bp = CHR ''/''
                            \<and> baseUrl lo = Some (normalizePath h (bp @ u))))
           \<and> ((\<exists>bp. basePath c = Some bp \<and> is_absolute_on h bp)
               \<and> (\<forall>p. is_absolute_on h p \<longrightarrow> is_absolute_on h (normalizePath h p))
               \<and> (\<forall>f. host_node h \<and> path_isAbsolute h = Some f \<longrightarrow> (\<forall>p t. f p \<longrightarrow> f (p @ t)))
               \<longrightarrow> (\<exists>u. baseUrl lo = Some u \<and> is_absolute_on h u))"
    by blast
  show "host_node h
           \<and> is_absolute_on h (case basePath merged of None \<Rightarrow> cwd h | Some p \<Rightarrow> p)
           \<and> (\<forall>p. is_absolute_on h p \<longrightarrow> is_absolute_on h (normalizePath h p))
           \<and> (\<forall>f. host_node h \<and> path_isAbsolute h = Some f \<longrightarrow> (\<forall>p t. f p \<longrightarrow> f (p @ t)))
           \<longrightarrow> (\<exists>bp. basePath c = Some bp \<and> is_absolute_on h bp)"
  proof
    assume a: "host_node h
           \<and> is_absolute_on h (case basePath merged of None \<Rightarrow> cwd h | Some p \<Rightarrow> p)
           \<and> (\<forall>p. is_absolute_on h p \<longrightarrow> is_absolute_on h (normalizePath h p))
           \<and> (\<forall>f. host_node h \<and> path_isAbsolute h = Some f \<longrightarrow> (\<forall>p t. f p \<longrightarrow> f (p @ t)))"
    let ?p = "case basePath merged of None \<Rightarrow> cwd h | Some p \<Rightarrow> p"
    from a have "is_absolute_on h (normalizePath h ?p)" by blast
    moreover from a
    have "\<forall>f. host_node h \<and> path_isAbsolute h = Some f \<longrightarrow> (\<forall>p t. f p \<longrightarrow> f (p @ t))"
      by blast
    ultimately have "is_absolute_on h (ensure_trailing_slash (normalizePath h ?p))"
      using is_absolute_on_slash by blast
    moreover from a have "basePath c = Some (ensure_trailing_slash (normalizePath h ?p))"
      unfolding bp by (simp add: resolve_basePath_def deprecated_options_fields)
    ultimately show "\<exists>bp. basePath c = Some bp \<and> is_absolute_on h bp" by blast
  qed
  show "\<not> host_node h \<and> host_browser h \<longrightarrow>
            (\<forall>u. is_absolute_on h u
               \<longleftrightarrow> (\<exists>w rest. u = w @ '':'' @ rest \<and> w \<noteq> [] \<and> list_all is_word_char w)
                   \<or> (\<exists>x rest. u = ''//'' @ x # rest \<and> is_word_char x))"
    using is_absolute_on_browser by blast
  show "host_node h \<longrightarrow>
            (\<forall>u. is_absolute_on h u
               \<longleftrightarrow> (case path_isAbsolute h of
                      Some f \<Rightarrow> f u
                    | None \<Rightarrow>
                        if path_sep h = ''/'' then take 1 u = ''/''
                        else (\<exists>w rest. u = w @ '':'' @ rest \<and> w \<noteq> []
                                       \<and> list_all is_word_char w)))"
    using is_absolute_on_node by blast
qed

lemma example_normalizePath:
  "normalizePath example_node p = p" "normalizePath example_browser p = p"
  by (simp_all add: example_node_def example_browser_def)

lemma example_append:
  "\<forall>f. host_node example_node \<and> path_isAbsolute example_node = Some f
        \<longrightarrow> (\<forall>p t. f p \<longrightarrow> f (p @ t))"
  "\<forall>f. host_node example_browser \<and> path_isAbsolute example_browser = Some f
        \<longrightarrow> (\<forall>p t. f p \<longrightarrow> f (p @ t))"
proof -
  have "\<And>p t. take 1 p = ''/'' \<Longrightarrow> take 1 (p @ t) = ''/''"
    by (case_tac p) simp_all
  then show "\<forall>f. host_node example_node \<and> path_isAbsolute example_node = Some f
        \<longrightarrow> (\<forall>p t. f p \<longrightarrow> f (p @ t))"
    by (simp add: example_node_def)
  show "\<forall>f. host_node example_browser \<and> path_isAbsolute example_browser = Some f
        \<longrightarrow> (\<forall>p t. f p \<longrightarrow> f (p @ t))"
    by (simp add: example_browser_def example_node_def)
qed

lemma example_cwd: "cwd example_node = ''/home/project''"
  by (simp add: example_node_def)

lemma example_absolute:
  "is_absolute_on example_node ''/home/project''"
  "is_absolute_on example_node ''/srv/lib''"
  "\<not> is_absolute_on example_node ''lib''"
  "is_absolute_on example_browser ''http://example.com/lib''"
  "is_absolute_on example_browser ''//cdn.example.com/lib''"
  "is_absolute_on example_browser ''http://localhost:9000/''"
  "\<not> is_absolute_on example_browser ''lib''"
  "\<not> is_absolute_on example_browser ''/lib''"
  by (simp_all add: is_absolute_on_def isAbsoluteBaseUrl_def example_node_def
                    example_browser_def rx_defs)

lemma example_given:
  "given_loaderOptions (example_config\<lparr>loaderOptions := Obj lo\<rparr>) = lo"
  "given_loaderOptions (example_config\<lparr>initialBaseUrl := i, loaderOptions := Obj lo\<rparr>) = lo"
  "given_loaderOptions example_config = empty_loader_options"
  by (simp_all add: given_loaderOptions_def example_config_def)

theorem getConfig_baseUrl_witness:
  "(\<exists>c lo bp. fst (getConfig example_node example_modules example_defaults example_args
              (example_config\<lparr>loaderOptions := Obj (empty_loader_options\<lparr>baseUrl := Some ''lib''\<rparr>)\<rparr>) [])
            = Inr c
        \<and> loaderOptions c = Obj lo \<and> basePath c = Some bp \<and> baseUrl lo = Some (bp @ ''lib'')
        \<and> is_absolute_on example_node (bp @ ''lib''))
 \<and> (\<exists>c lo. fst (getConfig example_node example_modules example_defaults example_args
              (example_config\<lparr>loaderOptions := Obj (empty_loader_options\<lparr>baseUrl := Some ''/srv/lib''\<rparr>)\<rparr>) [])
            = Inr c
        \<and> loaderOptions c = Obj lo \<and> baseUrl lo = Some ''/srv/lib'')
 \<and> (\<exists>c lo. fst (getConfig example_node example_modules example_defaults example_args
              example_config []) = Inr c
        \<and> loaderOptions c = Obj lo \<and> baseUrl lo = basePath c)
 \<and> (\<exists>c lo. fst (getConfig example_browser example_modules example_defaults example_args
              (example_config\<lparr>initialBaseUrl := Some ''/'', loaderOptions :=
                 Obj (empty_loader_options\<lparr>baseUrl := Some ''http://example.com/lib''\<rparr>)\<rparr>) [])
            = Inr c
        \<and> loaderOptions c = Obj lo \<and> baseUrl lo = Some ''http://example.com/lib'')
 \<and> (\<exists>c lo. fst (getConfig example_browser example_modules example_defaults example_args
              (example_config\<lparr>initialBaseUrl := Some ''/'', loaderOptions :=
                 Obj (empty_loader_options\<lparr>baseUrl := Some ''//cdn.example.com/lib''\<rparr>)\<rparr>) [])
            = Inr c
        \<and> loaderOptions c = Obj lo \<and> baseUrl lo = Some ''//cdn.example.com/lib'')
 \<and> (\<exists>c lo u. fst (getConfig example_browser example_modules example_defaults example_args
              (example_config\<lparr>initialBaseUrl := Some ''http://localhost:9000/'',
                              loaderOptions := Obj (empty_loader_options\<lparr>baseUrl := Some ''/lib''\<rparr>)\<rparr>) [])
            = Inr c
        \<and> loaderOptions c = Obj lo \<and> basePath c = Some ''http://localhost:9000/''
        \<and> baseUrl lo = Some u \<and> is_absolute_on example_browser u)"
proof (intro conjI)
  let ?c1 = "example_config\<lparr>loaderOptions := Obj (empty_loader_options\<lparr>baseUrl := Some ''lib''\<rparr>)\<rparr>"
  have "\<exists>c. fst (getConfig example_node example_modules example_defaults example_args ?c1 []) = Inr c"
    by (simp add: getConfig_defs)
  then obtain c where
    c: "fst (getConfig example_node example_modules example_defaults example_args ?c1 []) = Inr c" ..
  note t = getConfig_baseUrl[OF c]
  from t[THEN conjunct1] obtain lo where
    l: "loaderOptions c = Obj lo
        \<and> (case baseUrl (given_loaderOptions ?c1) of
             None \<Rightarrow> baseUrl lo = basePath c
           | Some u \<Rightarrow>
               if u = [] then baseUrl lo = basePath c
               else if is_absolute_on example_node u then baseUrl lo = Some u
               else (\<exists>bp. basePath c = Some bp \<and> bp \<noteq> [] \<and> last bp = CHR ''/''
                         \<and> baseUrl lo = Some (normalizePath example_node (bp @ u))))
        \<and> ((\<exists>bp. basePath c = Some bp \<and> is_absolute_on example_node bp)
            \<and> (\<forall>p. is_absolute_on example_node p
                   \<longrightarrow> is_absolute_on example_node (normalizePath example_node p))
            \<and> (\<forall>f. host_node example_node \<and> path_isAbsolute example_node = Some f
                   \<longrightarrow> (\<forall>p t. f p \<longrightarrow> f (p @ t)))
            \<longrightarrow> (\<exists>u. baseUrl lo = Some u \<and> is_absolute_on example_node u))" ..
  from l[THEN conjunct2, THEN conjunct1]
  obtain bp where bp: "basePath c = Some bp" "baseUrl lo = Some (bp @ ''lib'')"
    by (auto simp: example_given empty_loader_options_def example_absolute example_normalizePath)
  have "basePath ?c1 = None" by (simp add: example_config_def)
  then have "host_node example_node
      \<and> is_absolute_on example_node (case basePath ?c1 of None \<Rightarrow> cwd example_node | Some p \<Rightarrow> p)
      \<and> (\<forall>p. is_absolute_on example_node p
             \<longrightarrow> is_absolute_on example_node (normalizePath example_node p))
      \<and> (\<forall>f. host_node example_node \<and> path_isAbsolute example_node = Some f
             \<longrightarrow> (\<forall>p t. f p \<longrightarrow> f (p @ t)))"
    using example_append(1)
    by (simp add: example_facts example_normalizePath example_absolute example_cwd)
  then have "\<exists>b. basePath c = Some b \<and> is_absolute_on example_node b"
    by (rule t[THEN conjunct2, THEN conjunct1, THEN mp])
  then have "(\<exists>bp. basePath c = Some bp \<and> is_absolute_on example_node bp)
            \<and> (\<forall>p. is_absolute_on example_node p
                   \<longrightarrow> is_absolute_on example_node (normalizePath example_node p))
            \<and> (\<forall>f. host_node example_node \<and> path_isAbsolute example_node = Some f
                   \<longrightarrow> (\<forall>p t. f p \<longrightarrow> f (p @ t)))"
    using example_append(1) by (simp add: example_normalizePath)
  then have "\<exists>u. baseUrl lo = Some u \<and> is_absolute_on example_node u"
    by (rule l[THEN conjunct2, THEN conjunct2, THEN mp])
  with bp have "is_absolute_on example_node (bp @ ''lib'')" by simp
  with c l bp
  show "\<exists>c lo bp. fst (getConfig example_node example_modules example_defaults example_args ?c1 []) = Inr c
        \<and> loaderOptions c = Obj lo \<and> basePath c = Some bp \<and> baseUrl lo = Some (bp @ ''lib'')
        \<and> is_absolute_on example_node (bp @ ''lib'')"
    by blast
next
  let ?c2 = "example_config\<lparr>loaderOptions := Obj (empty_loader_options\<lparr>baseUrl := Some ''/srv/lib''\<rparr>)\<rparr>"
  have "\<exists>c. fst (getConfig example_node example_modules example_defaults example_args ?c2 []) = Inr c"
    by (simp add: getConfig_defs)
  then obtain c where
    c: "fst (getConfig example_node example_modules example_defaults example_args ?c2 []) = Inr c" ..
  from getConfig_baseUrl[OF c, THEN conjunct1]
  have "\<exists>lo. loaderOptions c = Obj lo \<and> baseUrl lo = Some ''/srv/lib''"
    by (auto simp: example_given empty_loader_options_def example_absolute)
  with c show "\<exists>c lo. fst (getConfig example_node example_modules example_defaults example_args ?c2 []) = Inr c
        \<and> loaderOptions c = Obj lo \<and> baseUrl lo = Some ''/srv/lib''"
    by blast
next
  obtain c where
    c: "fst (getConfig example_node example_modules example_defaults example_args example_config []) = Inr c"
    using example_resolves[of example_config] by (auto simp: example_config_def is_nullish_def)
  from getConfig_baseUrl[OF c, THEN conjunct1]
  have "\<exists>lo. loaderOptions c = Obj lo \<and> baseUrl lo = basePath c"
    by (auto simp: example_given empty_loader_options_def)
  with c show "\<exists>c lo. fst (getConfig example_node example_modules example_defaults example_args example_config []) = Inr c
        \<and> loaderOptions c = Obj lo \<and> baseUrl lo = basePath c"
    by blast
next
  let ?c4 = "example_config\<lparr>initialBaseUrl := Some ''/'', loaderOptions :=
                 Obj (empty_loader_options\<lparr>baseUrl := Some ''http://example.com/lib''\<rparr>)\<rparr>"
  have "\<exists>c. fst (getConfig example_browser example_modules example_defaults example_args ?c4 []) = Inr c"
    by (simp add: getConfig_defs rx_defs)
  then obtain c where
    c: "fst (getConfig example_browser example_modules example_defaults example_args ?c4 []) = Inr c" ..
  from getConfig_baseUrl[OF c, THEN conjunct1]
  have "\<exists>lo. loaderOptions c = Obj lo \<and> baseUrl lo = Some ''http://example.com/lib''"
    by (auto simp: example_given empty_loader_options_def example_absolute)
  with c show "\<exists>c lo. fst (getConfig example_browser example_modules example_defaults example_args ?c4 []) = Inr c
        \<and> loaderOptions c = Obj lo \<and> baseUrl lo = Some ''http://example.com/lib''"
    by blast
next
  let ?c5 = "example_config\<lparr>initialBaseUrl := Some ''/'', loaderOptions :=
                 Obj (empty_loader_options\<lparr>baseUrl := Some ''//cdn.example.com/lib''\<rparr>)\<rparr>"
  have "\<exists>c. fst (getConfig example_browser example_modules example_defaults example_args ?c5 []) = Inr c"
    by (simp add: getConfig_defs rx_defs)
  then obtain c where
    c: "fst (getConfig example_browser example_modules example_defaults example_args ?c5 []) = Inr c" ..
  from getConfig_baseUrl[OF c, THEN conjunct1]
  have "\<exists>lo. loaderOptions c = Obj lo \<and> baseUrl lo = Some ''//cdn.example.com/lib''"
    by (auto simp: example_given empty_loader_options_def example_absolute)
  with c show "\<exists>c lo. fst (getConfig example_browser example_modules example_defaults example_args ?c5 []) = Inr c
        \<and> loaderOptions c = Obj lo \<and> baseUrl lo = Some ''//cdn.example.com/lib''"
    by blast
next
  let ?c6 = "example_config\<lparr>initialBaseUrl := Some ''http://localhost:9000/'',
                              loaderOptions := Obj (empty_loader_options\<lparr>baseUrl := Some ''/lib''\<rparr>)\<rparr>"
  have "\<exists>c. fst (getConfig example_browser example_modules example_defaults example_args ?c6 []) = Inr c
            \<and> basePath c = Some ''http://localhost:9000/''"
    by (simp add: getConfig_defs rx_defs)
  then obtain c where
    c: "fst (getConfig example_browser example_modules example_defaults example_args ?c6 []) = Inr c"
    and b: "basePath c = Some ''http://localhost:9000/''" by blast
  from getConfig_baseUrl[OF c, THEN conjunct1] obtain lo where
    l: "loaderOptions c = Obj lo
        \<and> (case baseUrl (given_loaderOptions ?c6) of
             None \<Rightarrow> baseUrl lo = basePath c
           | Some u \<Rightarrow>
               if u = [] then baseUrl lo = basePath c
               else if is_absolute_on example_browser u then baseUrl lo = Some u
               else (\<exists>bp. basePath c = Some bp \<and> bp \<noteq> [] \<and> last bp = CHR ''/''
                         \<and> baseUrl lo = Some (normalizePath example_browser (bp @ u))))
        \<and> ((\<exists>bp. basePath c = Some bp \<and> is_absolute_on example_browser bp)
            \<and> (\<forall>p. is_absolute_on example_browser p
                   \<longrightarrow> is_absolute_on example_browser (normalizePath example_browser p))
            \<and> (\<forall>f. host_node example_browser \<and> path_isAbsolute example_browser = Some f
                   \<longrightarrow> (\<forall>p t. f p \<longrightarrow> f (p @ t)))
            \<longrightarrow> (\<exists>u. baseUrl lo = Some u \<and> is_absolute_on example_browser u))" ..
  have "(\<exists>bp. basePath c = Some bp \<and> is_absolute_on example_browser bp)
            \<and> (\<forall>p. is_absolute_on example_browser p
                   \<longrightarrow> is_absolute_on example_browser (normalizePath example_browser p))
            \<and> (\<forall>f. host_node example_browser \<and> path_isAbsolute example_browser = Some f
                   \<longrightarrow> (\<forall>p t. f p \<longrightarrow> f (p @ t)))"
    using example_append(2) b by (simp add: example_normalizePath example_absolute)
  then have "\<exists>u. baseUrl lo = Some u \<and> is_absolute_on example_browser u"
    by (rule l[THEN conjunct2, THEN conjunct2, THEN mp])
  with c l b
  show "\<exists>c lo u. fst (getConfig example_browser example_modules example_defaults example_args ?c6 []) = Inr c
        \<and> loaderOptions c = Obj lo \<and> basePath c = Some ''http://localhost:9000/''
        \<and> baseUrl lo = Some u \<and> is_absolute_on example_browser u"
    by blast
qed

text \<open>
  C3 as it is stated fails. On a browser, with \<open>initialBaseUrl\<close> the root (so that
  \<open>util.normalizePath\<close> is not called at all) and no base URL in the loader options:
  a configured base path \<open>foo\<close> resolves to the base URL \<open>foo/\<close>, and no base path
  resolves to the base URL \<open>/\<close>. Neither passes the browser's test for an absolute
  URL (a scheme, or two slashes and a word character), and \<open>foo/\<close> is relative on any
  reading.
\<close>

theorem getConfig_baseUrl_not_absolute:
  "resolved_baseUrl (fst (getConfig example_browser example_modules example_defaults example_args
       (example_config\<lparr>initialBaseUrl := Some ''/'', basePath := Some ''foo''\<rparr>) []))
     = Some ''foo/''
 \<and> \<not> is_absolute_on example_browser ''foo/''
 \<and> resolved_baseUrl (fst (getConfig example_browser example_modules example_defaults example_args
       (example_config\<lparr>initialBaseUrl := Some ''/''\<rparr>) []))
     = Some ''/''
 \<and> \<not> is_absolute_on example_browser ''/''"
  by (simp add: getConfig_defs resolved_baseUrl_def is_absolute_on_def rx_defs)

subsection \<open>swapLoader\<close>





text \<open>
  The slip next to the merge: a default alias whose key is a property name of
  \<open>Object.prototype\<close> is \<open>in\<close> every user map, and is not merged forward.
\<close>

lemma merge_star_map_inherited_key:
  "merge_star_map [(''constructor'', VStr ''shim/constructor'')] [(''a'', VStr ''x'')]
     = [(''a'', VStr ''x'')]"
  by (simp add: key_in_def object_prototype_keys_def)


lemmas swap_defs =
  swapLoader_def swapLoader_executor_def configure_loader_def merged_options_def star_map_def
  default_star_def node_require_def nonempty_def key_in_def
  object_prototype_keys_def star_options_def initial_swap_def example_swap_host_def
  alias_map_def alias_union_def empty_loader_options_def



lemma swapLoader_executor_cached:
  assumes "host_node h" and "loader_host_node r = Some ident" and "ident \<noteq> []"
    and "global_require st = Some active" and "has_nodeRequire sh active"
    and "require_resolve sh ident = Inr file" and "file \<in> set (module_cache st)"
  shows "swapLoader_executor h sh bp (Obj r) st = (Inr (Some active), st)"
  using assms by (simp add: swapLoader_executor_def nonempty_def)

lemma swapLoader_executor_no_nodeRequire:
  assumes "host_node h" and "loader_host_node r = Some ident" and "ident \<noteq> []"
    and "global_require st = None
         \<or> (\<exists>active. global_require st = Some active \<and> \<not> has_nodeRequire sh active)"
  shows "swapLoader_executor h sh bp (Obj r) st = (Inl TypeError, st)"
  using assms by (auto simp: swapLoader_executor_def nonempty_def)

lemma swapLoader_cached_step:
  assumes "host_node h" and "loader_host_node r = Some ident" and "ident \<noteq> []"
    and "global_require st = Some active" and "has_nodeRequire sh active"
    and "require_resolve sh ident = Inr file" and "file \<in> set (module_cache st)"
  shows "swapLoader h sh dflt bp (Obj r) lopts st =
           (Inr (Some active),
            st\<lparr>configured :=
                 configured st @ (active, dflt) #
                 (case lopts of
                    None \<Rightarrow> []
                  | Some lo \<Rightarrow> [(active, Some (merged_options dflt lo))])\<rparr>)"
  unfolding swapLoader_def swapLoader_executor_cached[OF assms]
  by (simp add: configure_loader_def split: option.splits)

text \<open>
  C5, as the code has it. On Node.js, when the loader named for \<open>host-node\<close> resolves
  to a file that is in the module cache. If a loader is active in the global
  \<open>require\<close> slot and carries Node's \<open>require\<close> as \<open>nodeRequire\<close>, the promise
  resolves with that loader: no module is executed, the global \<open>require\<close> and
  \<open>define\<close> slots are not cleared, nothing is added to the cache or the page, and the
  only change is that the configuration is applied to that loader again; a second
  swap with the same loader does the same. If no loader is active, or the active one
  carries no \<open>nodeRequire\<close>, the promise is rejected with a \<open>TypeError\<close> and nothing
  changes.
\<close>

theorem swapLoader_cached:
  assumes "host_node h" and "loader_host_node r = Some ident" and "ident \<noteq> []"
    and "require_resolve sh ident = Inr file" and "file \<in> set (module_cache st)"
  shows "(\<forall>active. global_require st = Some active \<and> has_nodeRequire sh active \<longrightarrow>
            swapLoader_executor h sh bp (Obj r) st = (Inr (Some active), st)
          \<and> (\<exists>st'. swapLoader h sh dflt bp (Obj r) lopts st = (Inr (Some active), st')
                 \<and> st' = st\<lparr>configured :=
                             configured st @ (active, dflt) #
                             (case lopts of
                                None \<Rightarrow> []
                              | Some lo \<Rightarrow> [(active, Some (merged_options dflt lo))])\<rparr>
                 \<and> (\<exists>st''. swapLoader h sh dflt bp (Obj r) lopts st' = (Inr (Some active), st'')
                        \<and> st'' = st'\<lparr>configured :=
                                      configured st' @ (active, dflt) #
                                      (case lopts of
                                         None \<Rightarrow> []
                                       | Some lo \<Rightarrow> [(active, Some (merged_options dflt lo))])\<rparr>)))
       \<and> (global_require st = None
           \<or> (\<exists>active. global_require st = Some active \<and> \<not> has_nodeRequire sh active)
          \<longrightarrow> swapLoader h sh dflt bp (Obj r) lopts st = (Inl TypeError, st))"
proof (intro conjI allI impI)
  fix active
  assume a: "global_require st = Some active \<and> has_nodeRequire sh active"
  then have g: "global_require st = Some active" and n: "has_nodeRequire sh active" by simp_all
  show "swapLoader_executor h sh bp (Obj r) st = (Inr (Some active), st)"
    using assms(1-3) g n assms(4,5) by (rule swapLoader_executor_cached)
  let ?st' = "st\<lparr>configured :=
                 configured st @ (active, dflt) #
                 (case lopts of
                    None \<Rightarrow> []
                  | Some lo \<Rightarrow> [(active, Some (merged_options dflt lo))])\<rparr>"
  have s: "swapLoader h sh dflt bp (Obj r) lopts st = (Inr (Some active), ?st')"
    using assms(1-3) g n assms(4,5) by (rule swapLoader_cached_step)
  have g': "global_require ?st' = Some active" and c': "file \<in> set (module_cache ?st')"
    using g assms(5) by simp_all
  have s': "swapLoader h sh dflt bp (Obj r) lopts ?st' =
              (Inr (Some active),
               ?st'\<lparr>configured :=
                      configured ?st' @ (active, dflt) #
                      (case lopts of
                         None \<Rightarrow> []
                       | Some lo \<Rightarrow> [(active, Some (merged_options dflt lo))])\<rparr>)"
    using assms(1-3) g' n assms(4) c' by (rule swapLoader_cached_step)
  from s s'
  show "\<exists>st'. swapLoader h sh dflt bp (Obj r) lopts st = (Inr (Some active), st')
                 \<and> st' = st\<lparr>configured :=
                             configured st @ (active, dflt) #
                             (case lopts of
                                None \<Rightarrow> []
                              | Some lo \<Rightarrow> [(active, Some (merged_options dflt lo))])\<rparr>
                 \<and> (\<exists>st''. swapLoader h sh dflt bp (Obj r) lopts st' = (Inr (Some active), st'')
                        \<and> st'' = st'\<lparr>configured :=
                                      configured st' @ (active, dflt) #
                                      (case lopts of
                                         None \<Rightarrow> []
                                       | Some lo \<Rightarrow> [(active, Some (merged_options dflt lo))])\<rparr>)"
    by blast
next
  assume "global_require st = None
           \<or> (\<exists>active. global_require st = Some active \<and> \<not> has_nodeRequire sh active)"
  with assms(1-3) have "swapLoader_executor h sh bp (Obj r) st = (Inl TypeError, st)"
    by (rule swapLoader_executor_no_nodeRequire)
  then show "swapLoader h sh dflt bp (Obj r) lopts st = (Inl TypeError, st)"
    by (simp add: swapLoader_def)
qed

theorem swapLoader_cached_witness:
  "swapLoader_executor example_node example_swap_host ''/home/project/''
     (Obj \<lparr>loader_host_node = Some ''requirejs'', loader_host_browser = None\<rparr>)
     (initial_swap\<lparr>module_cache := [''/home/project/node_modules/requirejs.js'']\<rparr>)
   = (Inr (Some ''dojo''),
      initial_swap\<lparr>module_cache := [''/home/project/node_modules/requirejs.js'']\<rparr>)
 \<and> swapLoader example_node example_swap_host None ''/home/project/''
     (Obj \<lparr>loader_host_node = Some ''requirejs'', loader_host_browser = None\<rparr>) None
     (initial_swap\<lparr>module_cache := [''/home/project/node_modules/requirejs.js'']\<rparr>)
   = (Inr (Some ''dojo''),
      initial_swap\<lparr>module_cache := [''/home/project/node_modules/requirejs.js''],
                   configured := [(''dojo'', None)]\<rparr>)
 \<and> swapLoader example_node example_swap_host None ''/home/project/''
     (Obj \<lparr>loader_host_node = Some ''requirejs'', loader_host_browser = None\<rparr>) None
     (initial_swap\<lparr>module_cache := [''/home/project/node_modules/requirejs.js''],
                   global_require := None\<rparr>)
   = (Inl TypeError,
      initial_swap\<lparr>module_cache := [''/home/project/node_modules/requirejs.js''],
                   global_require := None\<rparr>)"
proof -
  let ?st = "initial_swap\<lparr>module_cache := [''/home/project/node_modules/requirejs.js'']\<rparr>"
  let ?r = "\<lparr>loader_host_node = Some ''requirejs'', loader_host_browser = None\<rparr>"
  have h: "host_node example_node" by (simp add: example_node_def)
  have r: "loader_host_node ?r = Some ''requirejs''" "''requirejs'' \<noteq> []" by simp_all
  have f: "require_resolve example_swap_host ''requirejs''
                   = Inr ''/home/project/node_modules/requirejs.js''"
    by (simp add: example_swap_host_def)
  have c: "''/home/project/node_modules/requirejs.js'' \<in> set (module_cache ?st)" by simp
  have c2: "''/home/project/node_modules/requirejs.js''
              \<in> set (module_cache (?st\<lparr>global_require := None\<rparr>))" by simp
  have a: "global_require ?st = Some ''dojo'' \<and> has_nodeRequire example_swap_host ''dojo''"
    by (simp add: initial_swap_def example_swap_host_def)
  note t = swapLoader_cached[OF h r f c, of "''/home/project/''" None None,
                             THEN conjunct1, rule_format, OF a]
  note u = swapLoader_cached[OF h r f c2, of "''/home/project/''" None None,
                             THEN conjunct2, THEN mp]
  have "configured ?st = []" by (simp add: initial_swap_def)
  with t have "swapLoader example_node example_swap_host None ''/home/project/'' (Obj ?r) None ?st
                 = (Inr (Some ''dojo''), ?st\<lparr>configured := [(''dojo'', None)]\<rparr>)"
    by auto
  moreover have "swapLoader example_node example_swap_host None ''/home/project/'' (Obj ?r) None
                   (?st\<lparr>global_require := None\<rparr>) = (Inl TypeError, ?st\<lparr>global_require := None\<rparr>)"
    by (rule u) simp
  ultimately show ?thesis using t by simp
qed

text \<open>
  C5 as it is stated fails. On a host where only the bootstrap loader carries
  \<open>nodeRequire\<close>: the first swap to the loader \<open>requirejs\<close> executes its module, which
  enters the cache and becomes the active loader; the same swap again, with the
  module now in the cache, is rejected with a \<open>TypeError\<close>.
\<close>

theorem swapLoader_cached_rejects:
  "fst (swapLoader example_node bare_loader_host None ''/home/project/''
          (Obj \<lparr>loader_host_node = Some ''requirejs'', loader_host_browser = None\<rparr>) None
          initial_swap)
     = Inr (Some ''/home/project/node_modules/requirejs.js'')
 \<and> ''/home/project/node_modules/requirejs.js''
     \<in> set (module_cache (snd (swapLoader example_node bare_loader_host None ''/home/project/''
          (Obj \<lparr>loader_host_node = Some ''requirejs'', loader_host_browser = None\<rparr>) None
          initial_swap)))
 \<and> fst (swapLoader example_node bare_loader_host None ''/home/project/''
          (Obj \<lparr>loader_host_node = Some ''requirejs'', loader_host_browser = None\<rparr>) None
          (snd (swapLoader example_node bare_loader_host None ''/home/project/''
             (Obj \<lparr>loader_host_node = Some ''requirejs'', loader_host_browser = None\<rparr>) None
             initial_swap)))
     = Inl TypeError"
  by (simp add: swap_defs bare_loader_host_def example_node_def Let_def)

text \<open>
  For comparison, the same swap with an empty cache: the slots are cleared and the
  loader module is executed.
\<close>

lemma swapLoader_not_cached_example:
  "executed (snd (swapLoader_executor example_node example_swap_host ''/home/project/''
     (Obj \<lparr>loader_host_node = Some ''requirejs'', loader_host_browser = None\<rparr>) initial_swap))
   = [''/home/project/node_modules/requirejs.js'']"
  by (simp add: swap_defs example_node_def Let_def)

subsection \<open>The error reporting bridge\<close>

lemma sendErrorToConduit_posts:
  assumes "session_id_of (location_search h) = Some raw"
    and "decodeURIComponent h raw = Some sid"
    and "stringify_message bh \<lparr>msg_sequence = sequence st, msg_sessionId = sid,
                                 msg_payload = (''fatalError'', err, sid)\<rparr> = Some text"
  shows "\<exists>st1. sendErrorToConduit h bh err st = Inr st1
           \<and> posts st1 = posts st @
                [\<lparr>post_url = toUrl h ''intern/'', post_method = ''POST'',
                  post_content_type = ''application/json'', post_data = [text]\<rparr>]
           \<and> sequence st1 = sequence st + 1"
  using assms by (simp add: sendErrorToConduit_def)

text \<open>
  C6. With a \<open>sessionId\<close> parameter in \<open>location.search\<close> (one that decodes), on a
  counter that stands at 0: the first error sent to the conduit (given that it
  serialises) adds exactly one request, whose data is the array of the one serialised
  message with sequence 0 and the session id, and moves the counter to 1; the second
  error in the same session adds one request with sequence 1. An error that does
  not serialise sends nothing and leaves the counter. Without a \<open>sessionId\<close>
  parameter \<open>sendErrorToConduit\<close> returns the state as it was.
\<close>

theorem sendErrorToConduit_sequence:
  "(\<forall>raw sid t0 t1.
       session_id_of (location_search h) = Some raw \<and> decodeURIComponent h raw = Some sid
       \<and> sequence st = 0
       \<and> stringify_message bh \<lparr>msg_sequence = 0, msg_sessionId = sid,
                                 msg_payload = (''fatalError'', e0, sid)\<rparr> = Some t0
       \<and> stringify_message bh \<lparr>msg_sequence = 1, msg_sessionId = sid,
                                 msg_payload = (''fatalError'', e1, sid)\<rparr> = Some t1
       \<longrightarrow> (\<exists>st1 st2.
              sendErrorToConduit h bh e0 st = Inr st1
            \<and> posts st1 = posts st @
                 [\<lparr>post_url = toUrl h ''intern/'', post_method = ''POST'',
                   post_content_type = ''application/json'', post_data = [t0]\<rparr>]
            \<and> sequence st1 = 1
            \<and> sendErrorToConduit h bh e1 st1 = Inr st2
            \<and> posts st2 = posts st1 @
                 [\<lparr>post_url = toUrl h ''intern/'', post_method = ''POST'',
                   post_content_type = ''application/json'', post_data = [t1]\<rparr>]
            \<and> sequence st2 = 2))
 \<and> (\<forall>raw sid.
       session_id_of (location_search h) = Some raw \<and> decodeURIComponent h raw = Some sid
       \<and> stringify_message bh \<lparr>msg_sequence = sequence st, msg_sessionId = sid,
                                 msg_payload = (''fatalError'', e0, sid)\<rparr> = None
       \<longrightarrow> sendErrorToConduit h bh e0 st = Inl TypeError
           \<and> sequence (snd (handleError h bh e0 st)) = sequence st
           \<and> posts (snd (handleError h bh e0 st)) = posts st)
 \<and> (session_id_of (location_search h) = None \<longrightarrow> sendErrorToConduit h bh e0 st = Inr st)"
proof (intro conjI allI impI)
  fix raw sid t0 t1
  assume a: "session_id_of (location_search h) = Some raw \<and> decodeURIComponent h raw = Some sid
       \<and> sequence st = 0
       \<and> stringify_message bh \<lparr>msg_sequence = 0, msg_sessionId = sid,
                                 msg_payload = (''fatalError'', e0, sid)\<rparr> = Some t0
       \<and> stringify_message bh \<lparr>msg_sequence = 1, msg_sessionId = sid,
                                 msg_payload = (''fatalError'', e1, sid)\<rparr> = Some t1"
  from a sendErrorToConduit_posts[of h raw sid bh st e0 t0] obtain st1 where
    1: "sendErrorToConduit h bh e0 st = Inr st1"
       "posts st1 = posts st @
                 [\<lparr>post_url = toUrl h ''intern/'', post_method = ''POST'',
                   post_content_type = ''application/json'', post_data = [t0]\<rparr>]"
       "sequence st1 = 1"
    by auto
  from a 1(3) sendErrorToConduit_posts[of h raw sid bh st1 e1 t1] obtain st2 where
    2: "sendErrorToConduit h bh e1 st1 = Inr st2"
       "posts st2 = posts st1 @
                 [\<lparr>post_url = toUrl h ''intern/'', post_method = ''POST'',
                   post_content_type = ''application/json'', post_data = [t1]\<rparr>]"
       "sequence st2 = 2"
    by auto
  from 1 2 show "\<exists>st1 st2.
              sendErrorToConduit h bh e0 st = Inr st1
            \<and> posts st1 = posts st @
                 [\<lparr>post_url = toUrl h ''intern/'', post_method = ''POST'',
                   post_content_type = ''application/json'', post_data = [t0]\<rparr>]
            \<and> sequence st1 = 1
            \<and> sendErrorToConduit h bh e1 st1 = Inr st2
            \<and> posts st2 = posts st1 @
                 [\<lparr>post_url = toUrl h ''intern/'', post_method = ''POST'',
                   post_content_type = ''application/json'', post_data = [t1]\<rparr>]
            \<and> sequence st2 = 2"
    by blast
next
  fix raw sid
  assume a: "session_id_of (location_search h) = Some raw \<and> decodeURIComponent h raw = Some sid
       \<and> stringify_message bh \<lparr>msg_sequence = sequence st, msg_sessionId = sid,
                                 msg_payload = (''fatalError'', e0, sid)\<rparr> = None"
  then show "sendErrorToConduit h bh e0 st = Inl TypeError"
    by (simp add: sendErrorToConduit_def)
  from a show "sequence (snd (handleError h bh e0 st)) = sequence st"
    by (auto simp: handleError_def sendErrorToConduit_def Let_def split: sum.splits option.splits)
  from a show "posts (snd (handleError h bh e0 st)) = posts st"
    by (auto simp: handleError_def sendErrorToConduit_def Let_def split: sum.splits option.splits)
next
  assume "session_id_of (location_search h) = None"
  then show "sendErrorToConduit h bh e0 st = Inr st"
    by (simp add: sendErrorToConduit_def)
qed

lemmas bridge_defs =
  handleError_def sendErrorToConduit_def run_catch_def initial_bridge_def example_bridge_def
  example_error_def example_browser_def example_node_def last_ten_def escape_html_def dq_def
  served_under_intern_def

theorem sendErrorToConduit_sequence_witness:
  "(\<exists>st1 st2.
      sendErrorToConduit example_browser example_bridge example_error initial_bridge = Inr st1
    \<and> posts st1 = [\<lparr>post_url = ''/intern/'', post_method = ''POST'',
                     post_content_type = ''application/json'',
                     post_data = [''{sequence:0,sessionId:abc123}'']\<rparr>]
    \<and> sendErrorToConduit example_browser example_bridge example_error st1 = Inr st2
    \<and> posts st2 = posts st1 @
                   [\<lparr>post_url = ''/intern/'', post_method = ''POST'',
                     post_content_type = ''application/json'',
                     post_data = [''{sequence:1,sessionId:abc123}'']\<rparr>])
 \<and> sendErrorToConduit (example_browser\<lparr>location_search := ''?config=tests/intern''\<rparr>)
       example_bridge example_error initial_bridge = Inr initial_bridge"
proof -
  have s: "session_id_of (location_search example_browser) = Some ''abc123''"
    by (simp add: example_browser_def example_node_def)
  have d: "decodeURIComponent example_browser ''abc123'' = Some ''abc123''"
    by (simp add: example_browser_def example_node_def)
  have t0: "stringify_message example_bridge \<lparr>msg_sequence = 0, msg_sessionId = ''abc123'',
               msg_payload = (''fatalError'', example_error, ''abc123'')\<rparr>
              = Some ''{sequence:0,sessionId:abc123}''"
    by (simp add: example_bridge_def)
  have t1: "stringify_message example_bridge \<lparr>msg_sequence = 1, msg_sessionId = ''abc123'',
               msg_payload = (''fatalError'', example_error, ''abc123'')\<rparr>
              = Some ''{sequence:1,sessionId:abc123}''"
    by (simp add: example_bridge_def)
  have q: "sequence initial_bridge = 0" "posts initial_bridge = []"
    by (simp_all add: initial_bridge_def)
  have u: "toUrl example_browser ''intern/'' = ''/intern/''"
    by (simp add: example_browser_def example_node_def)
  have n: "session_id_of (location_search (example_browser\<lparr>location_search := ''?config=tests/intern''\<rparr>)) = None"
    by simp
  from sendErrorToConduit_sequence[of example_browser initial_bridge example_bridge
         example_error example_error] s d t0 t1 q u
  have "\<exists>st1 st2.
      sendErrorToConduit example_browser example_bridge example_error initial_bridge = Inr st1
    \<and> posts st1 = [\<lparr>post_url = ''/intern/'', post_method = ''POST'',
                     post_content_type = ''application/json'',
                     post_data = [''{sequence:0,sessionId:abc123}'']\<rparr>]
    \<and> sendErrorToConduit example_browser example_bridge example_error st1 = Inr st2
    \<and> posts st2 = posts st1 @
                   [\<lparr>post_url = ''/intern/'', post_method = ''POST'',
                     post_content_type = ''application/json'',
                     post_data = [''{sequence:1,sessionId:abc123}'']\<rparr>]"
    by (auto simp del: session_id_of.simps)
  moreover from sendErrorToConduit_sequence[of
      "example_browser\<lparr>location_search := ''?config=tests/intern''\<rparr>" initial_bridge
      example_bridge example_error example_error] n
  have "sendErrorToConduit (example_browser\<lparr>location_search := ''?config=tests/intern''\<rparr>)
       example_bridge example_error initial_bridge = Inr initial_bridge"
    by blast
  ultimately show ?thesis by blast
qed

lemma handleError_handled:
  "handled (snd (handleError h bh err st)) = handled st @ [err]"
  by (auto simp: handleError_def sendErrorToConduit_def Let_def split: sum.splits option.splits)

lemma sendErrorToConduit_exit_code:
  "sendErrorToConduit h bh err st = Inr st1 \<Longrightarrow> exit_code st1 = exit_code st"
  by (auto simp: sendErrorToConduit_def split: option.splits)

text \<open>When \<open>_handleError\<close> throws, and when it ends the process.\<close>

lemma handleError_throws:
  "fst (handleError h bh err st) = Some e
     \<longleftrightarrow> host_browser h \<and> served_under_intern h
         \<and> sendErrorToConduit h bh err (st\<lparr>handled := handled st @ [err]\<rparr>) = Inl e"
  by (auto simp: handleError_def Let_def split: sum.splits)

lemma handleError_exits:
  assumes "exit_code st = None"
  shows "exit_code (snd (handleError h bh err st)) \<noteq> None
     \<longleftrightarrow> \<not> host_browser h \<and> has_console bh \<and> host_node h"
proof (cases "host_browser h")
  case True
  show ?thesis
  proof (cases "if served_under_intern h
                then sendErrorToConduit h bh err (st\<lparr>handled := handled st @ [err]\<rparr>)
                else Inr (st\<lparr>handled := handled st @ [err]\<rparr>)")
    case (Inl e)
    with True assms show ?thesis by (simp add: handleError_def Let_def)
  next
    case (Inr st1)
    then have "exit_code st1 = None"
      using assms sendErrorToConduit_exit_code[of h bh err "st\<lparr>handled := handled st @ [err]\<rparr>" st1]
      by (auto split: if_splits)
    with True Inr show ?thesis by (simp add: handleError_def Let_def)
  qed
next
  case False
  with assms show ?thesis by (simp add: handleError_def Let_def)
qed

lemma run_catch_unreported:
  "\<not> reported err \<Longrightarrow>
   run_catch h bh err st =
     (case fst (handleError h bh err st) of
        Some e \<Rightarrow> Thrown e
      | None \<Rightarrow> if exit_code (snd (handleError h bh err st)) \<noteq> None then Exited
                else Rethrown err,
      snd (handleError h bh err st))"
  by (auto simp: run_catch_def split: prod.splits option.splits)

text \<open>
  C1, as the code has it. For an error that rejects the chain of \<open>run\<close>. When its
  \<open>reported\<close> marker is set, the handler is not called and the same error is thrown
  on; nothing else changes. When the marker is unset, the handler is called exactly
  once with the error, and the catch handler ends in one of three ways: the process
  has exited, which is so exactly on Node.js with a console; or the exception of the
  handler is thrown in place of the error, which is so exactly when, on a browser
  page served under \<open>/__intern/\<close>, \<open>sendErrorToConduit\<close> throws it; or, in every other
  case, the same error is thrown on, its marker still unset, so that the same error
  reaching the catch handler again is handled a second time.
\<close>

theorem run_catch_reports_once:
  "(reported err \<longrightarrow> run_catch h bh err st = (Rethrown err, st))
 \<and> (\<not> reported err \<longrightarrow>
       handled (snd (run_catch h bh err st)) = handled st @ [err]
     \<and> (\<forall>e. fst (run_catch h bh err st) = Thrown e
            \<longleftrightarrow> host_browser h \<and> served_under_intern h
                \<and> sendErrorToConduit h bh err (st\<lparr>handled := handled st @ [err]\<rparr>) = Inl e)
     \<and> (exit_code st = None \<longrightarrow>
           (fst (run_catch h bh err st) = Exited
              \<longleftrightarrow> \<not> host_browser h \<and> has_console bh \<and> host_node h)
         \<and> (fst (run_catch h bh err st) = Rethrown err
              \<longleftrightarrow> \<not> (\<not> host_browser h \<and> has_console bh \<and> host_node h)
                  \<and> \<not> (host_browser h \<and> served_under_intern h
                       \<and> (\<exists>e. sendErrorToConduit h bh err (st\<lparr>handled := handled st @ [err]\<rparr>)
                                = Inl e))))
     \<and> (\<forall>e. fst (run_catch h bh err st) = Rethrown e \<longrightarrow> e = err \<and> \<not> reported e)
     \<and> (fst (run_catch h bh err st) = Rethrown err \<longrightarrow>
           handled (snd (run_catch h bh err (snd (run_catch h bh err st))))
             = handled st @ [err, err]))"
proof (intro conjI impI allI)
  assume "reported err"
  then show "run_catch h bh err st = (Rethrown err, st)" by (simp add: run_catch_def)
next
  assume n: "\<not> reported err"
  note r = run_catch_unreported[OF n]
  show 1: "handled (snd (run_catch h bh err st)) = handled st @ [err]"
    by (simp add: r handleError_handled)
  { fix e
    show "fst (run_catch h bh err st) = Thrown e
            \<longleftrightarrow> host_browser h \<and> served_under_intern h
                \<and> sendErrorToConduit h bh err (st\<lparr>handled := handled st @ [err]\<rparr>) = Inl e"
      unfolding handleError_throws[symmetric]
      by (simp add: r split: option.splits) }
  { assume x: "exit_code st = None"
    have t: "(\<exists>e. fst (handleError h bh err st) = Some e)
            \<longleftrightarrow> host_browser h \<and> served_under_intern h
                \<and> (\<exists>e. sendErrorToConduit h bh err (st\<lparr>handled := handled st @ [err]\<rparr>) = Inl e)"
      using handleError_throws[of h bh err st] by blast
    note e = handleError_exits[OF x, of h bh err]
    show "fst (run_catch h bh err st) = Exited
              \<longleftrightarrow> \<not> host_browser h \<and> has_console bh \<and> host_node h"
    proof (cases "fst (handleError h bh err st)")
      case None
      with e show ?thesis by (simp add: r)
    next
      case (Some a)
      with t have "host_browser h" by blast
      with Some show ?thesis by (simp add: r)
    qed
    show "fst (run_catch h bh err st) = Rethrown err
              \<longleftrightarrow> \<not> (\<not> host_browser h \<and> has_console bh \<and> host_node h)
                  \<and> \<not> (host_browser h \<and> served_under_intern h
                       \<and> (\<exists>e. sendErrorToConduit h bh err (st\<lparr>handled := handled st @ [err]\<rparr>)
                                = Inl e))"
    proof (cases "fst (handleError h bh err st)")
      case None
      with t have "\<not> (host_browser h \<and> served_under_intern h
                       \<and> (\<exists>e. sendErrorToConduit h bh err (st\<lparr>handled := handled st @ [err]\<rparr>)
                                = Inl e))"
        by simp
      with None e show ?thesis by (simp add: r)
    next
      case (Some a)
      with t have "host_browser h \<and> served_under_intern h
                       \<and> (\<exists>e. sendErrorToConduit h bh err (st\<lparr>handled := handled st @ [err]\<rparr>)
                                = Inl e)"
        by blast
      with Some show ?thesis by (simp add: r)
    qed }
  { fix e assume "fst (run_catch h bh err st) = Rethrown e"
    then show "e = err" "\<not> reported e"
      using n by (auto simp: r split: option.splits if_splits) }
  { assume "fst (run_catch h bh err st) = Rethrown err"
    have "handled (snd (run_catch h bh err (snd (run_catch h bh err st))))
            = handled (snd (run_catch h bh err st)) @ [err]"
      by (simp add: run_catch_unreported[OF n] handleError_handled)
    with 1 show "handled (snd (run_catch h bh err (snd (run_catch h bh err st))))
             = handled st @ [err, err]"
      by simp }
qed

theorem run_catch_reports_once_witness:
  "run_catch example_browser example_bridge (example_error\<lparr>reported := True\<rparr>) initial_bridge
     = (Rethrown (example_error\<lparr>reported := True\<rparr>), initial_bridge)
 \<and> handled (snd (run_catch example_node example_bridge example_error initial_bridge))
     = [example_error]
 \<and> fst (run_catch example_node example_bridge example_error initial_bridge) = Exited
 \<and> fst (run_catch example_browser example_bridge example_error initial_bridge)
     = Rethrown example_error
 \<and> fst (run_catch (example_browser\<lparr>decodeURIComponent := (\<lambda>s. None)\<rparr>) example_bridge
          example_error initial_bridge)
     = Thrown URIError"
proof -
  have r: "reported (example_error\<lparr>reported := True\<rparr>)" by simp
  have n: "\<not> reported example_error" by (simp add: example_error_def)
  have h: "handled initial_bridge = []" "exit_code initial_bridge = None"
    by (simp_all add: initial_bridge_def)
  have node: "\<not> host_browser example_node" "has_console example_bridge" "host_node example_node"
    by (simp_all add: example_node_def example_bridge_def)
  have browser: "host_browser example_browser" "served_under_intern example_browser"
    "host_browser (example_browser\<lparr>decodeURIComponent := (\<lambda>s. None)\<rparr>)"
    "served_under_intern (example_browser\<lparr>decodeURIComponent := (\<lambda>s. None)\<rparr>)"
    by (simp_all add: example_browser_def example_node_def served_under_intern_def last_ten_def
                      rx_defs)
  have ok: "\<not> (\<exists>e. sendErrorToConduit example_browser example_bridge example_error
                  (initial_bridge\<lparr>handled := handled initial_bridge @ [example_error]\<rparr>) = Inl e)"
    by (simp add: sendErrorToConduit_def example_browser_def example_node_def example_bridge_def)
  have bad: "sendErrorToConduit (example_browser\<lparr>decodeURIComponent := (\<lambda>s. None)\<rparr>)
               example_bridge example_error
               (initial_bridge\<lparr>handled := handled initial_bridge @ [example_error]\<rparr>) = Inl URIError"
    by (simp add: sendErrorToConduit_def example_browser_def example_node_def)
  note marked = run_catch_reports_once[of "example_error\<lparr>reported := True\<rparr>" example_browser
         example_bridge initial_bridge, THEN conjunct1, THEN mp, OF r]
  note on_node = run_catch_reports_once[of example_error example_node example_bridge
         initial_bridge, THEN conjunct2, THEN mp, OF n]
  note on_browser = run_catch_reports_once[of example_error example_browser example_bridge
         initial_bridge, THEN conjunct2, THEN mp, OF n]
  note on_bad = run_catch_reports_once[of example_error
         "example_browser\<lparr>decodeURIComponent := (\<lambda>s. None)\<rparr>" example_bridge
         initial_bridge, THEN conjunct2, THEN mp, OF n]
  have "handled (snd (run_catch example_node example_bridge example_error initial_bridge))
          = [example_error]"
    using on_node[THEN conjunct1] h by simp
  moreover have "fst (run_catch example_node example_bridge example_error initial_bridge) = Exited"
    using on_node[THEN conjunct2, THEN conjunct2, THEN conjunct1, THEN mp, OF h(2), THEN conjunct1]
      node by simp
  moreover have "fst (run_catch example_browser example_bridge example_error initial_bridge)
                   = Rethrown example_error"
    using on_browser[THEN conjunct2, THEN conjunct2, THEN conjunct1, THEN mp, OF h(2),
                     THEN conjunct2] browser ok by simp
  moreover have "fst (run_catch (example_browser\<lparr>decodeURIComponent := (\<lambda>s. None)\<rparr>)
                        example_bridge example_error initial_bridge) = Thrown URIError"
    using on_bad[THEN conjunct2, THEN conjunct1, rule_format, of URIError] browser bad by simp
  ultimately show ?thesis using marked by simp
qed

text \<open>
  C1 as it is stated fails. On a browser, an unreported error that reaches the catch
  handler is thrown on with its marker still unset; when the same object reaches the
  handler of the failure path again, \<open>_handleError\<close> is called a second time.
\<close>

theorem run_catch_reports_twice:
  "fst (run_catch example_browser example_bridge example_error initial_bridge)
     = Rethrown example_error
 \<and> \<not> reported example_error
 \<and> handled (snd (run_catch example_browser example_bridge example_error
       (snd (run_catch example_browser example_bridge example_error initial_bridge))))
     = [example_error, example_error]"
  by (simp add: bridge_defs rx_defs)

subsection \<open>registerErrorHandler\<close>

lemmas handler_defs =
  registerErrorHandler_def register_early_def remove_handle_def removeListener_def
  active_handlers_def initial_handlers_def example_node_def example_browser_def

text \<open>
  C2. On Node.js, \<open>run\<close> installs the early handler, and a later
  \<open>registerErrorHandler\<close> is to remove it before it installs the new one. The code
  calls \<open>process.removeListener\<close> with the handler, which never was a listener: the
  listener is the anonymous function around it. The early listener stays, two
  handlers are active after the re-registration, and removing the handle that a
  registration returned leaves its listener attached.
\<close>

theorem registerErrorHandler_node_keeps_listener:
  "uncaught_listeners (snd (registerErrorHandler example_node ''reportFatalError''
       (register_early example_node initial_handlers)))
     = [Wrapper 0 ''_handleError'', Wrapper 1 ''reportFatalError'']
 \<and> active_handlers example_node (snd (registerErrorHandler example_node ''reportFatalError''
       (register_early example_node initial_handlers)))
     = [''_handleError'', ''reportFatalError'']
 \<and> fst (registerErrorHandler example_node ''_handleError'' initial_handlers)
     = Some (NodeHandle 0 ''_handleError'')
 \<and> uncaught_listeners (remove_handle (NodeHandle 0 ''_handleError'')
       (snd (registerErrorHandler example_node ''_handleError'' initial_handlers)))
     = [Wrapper 0 ''_handleError'']"
  by (simp add: handler_defs)

text \<open>
  On a browser the registration after the early one removes the advice of the early
  handler, whose handle \<open>run\<close> has stored, and one handler is active. The handles
  of later registrations are not stored, and a further registration leaves their
  advice in place.
\<close>

lemma registerErrorHandler_browser_replaces:
  assumes "host_browser h" and "onerror_advice st = []" and "earlyErrorHandle st = None"
  shows "active_handlers h (snd (registerErrorHandler h f (register_early h st))) = [f]"
  using assms
  by (simp add: registerErrorHandler_def register_early_def remove_handle_def
                active_handlers_def)

lemma registerErrorHandler_browser_third:
  "active_handlers example_browser
     (snd (registerErrorHandler example_browser ''second''
        (snd (registerErrorHandler example_browser ''first''
           (register_early example_browser initial_handlers)))))
     = [''second'', ''first'']"
  by (simp add: handler_defs)

end
